theory Spec2Isabelle
  imports Complex_Main "HOL-Library.AList"
begin

section \<open>Python values and exceptions\<close>

text \<open>
  The exceptions the modelled functions of \<^verbatim>\<open>bot.py\<close> can raise. A function that can
  raise returns \<open>py_error + 'a\<close>, with \<open>Inl\<close> for the exception.
\<close>

datatype py_error =
    IndexError
  | ValueError
  | TypeError
  | AttributeError
  | OverflowError
  | ZeroDivisionError
  | KeyError
  | OSError


section \<open>Python strings, lists and dictionaries\<close>

text \<open>
  A Python \<^verbatim>\<open>str\<close> is modelled by its UTF-8 bytes. \<^verbatim>\<open>str(n)\<close> of an integer, as the
  f-strings of the source use it, is the decimal numeral with a leading minus sign.
\<close>

definition digit_char :: "nat \<Rightarrow> char" where
  "digit_char d = char_of (48 + d)"

fun str_nat :: "nat \<Rightarrow> string" where
  "str_nat n = (if n < 10 then [digit_char n] else str_nat (n div 10) @ [digit_char (n mod 10)])"

declare str_nat.simps [simp del]

definition str_int :: "int \<Rightarrow> string" where
  "str_int i = (if i < 0 then CHR ''-'' # str_nat (nat (- i)) else str_nat (nat i))"

text \<open>\<^verbatim>\<open>sep.join(parts)\<close>.\<close>

fun py_join :: "string \<Rightarrow> string list \<Rightarrow> string" where
  "py_join sep [] = []"
| "py_join sep [x] = x"
| "py_join sep (x # y # ys) = x @ sep @ py_join sep (y # ys)"

text \<open>
  \<^verbatim>\<open>s.rsplit("_", 1)[-1]\<close>: the part of \<open>s\<close> after its last underscore, all of \<open>s\<close> when it
  has none.
\<close>

definition rsplit_last :: "string \<Rightarrow> string" where
  "rsplit_last s = rev (takeWhile (\<lambda>c. c \<noteq> CHR ''_'') (rev s))"


text \<open>
  \<^verbatim>\<open>xs[i]\<close>: a negative index counts from the end, an index out of range raises
  \<^verbatim>\<open>IndexError\<close>.
\<close>

definition py_index :: "'a list \<Rightarrow> int \<Rightarrow> py_error + 'a" where
  "py_index xs i =
     (if 0 \<le> i \<and> i < int (length xs) then Inr (xs ! nat i)
      else if i < 0 \<and> - int (length xs) \<le> i then Inr (xs ! nat (int (length xs) + i))
      else Inl IndexError)"

text \<open>
  A \<^verbatim>\<open>dict\<close> is the list of its items in insertion order, with distinct keys.
  \<^verbatim>\<open>d[k] = v\<close> is \<^const>\<open>AList.update\<close>: the value is replaced in place when the key is
  there, and the item is added at the end when it is not. \<^verbatim>\<open>d.get(k, default)\<close> is
  \<open>dict_get\<close>.
\<close>

definition dict_get :: "('k \<times> 'v) list \<Rightarrow> 'k \<Rightarrow> 'v \<Rightarrow> 'v" where
  "dict_get d k dflt = (case map_of d k of None \<Rightarrow> dflt | Some v \<Rightarrow> v)"

section \<open>JSON documents and the two files\<close>

text \<open>
  What \<^verbatim>\<open>json.load\<close> returns. A number with a fraction or an exponent is a \<^verbatim>\<open>float\<close>: a
  rational, an infinity or a NaN (\<^verbatim>\<open>json\<close> reads \<^verbatim>\<open>Infinity\<close> and \<^verbatim>\<open>NaN\<close>).
\<close>

datatype pyfloat = Finite rat | Infinite | NaN

datatype json =
    JNull
  | JBool bool
  | JInt int
  | JFloat pyfloat
  | JStr string
  | JArr "json list"
  | JObj "(string \<times> json) list"

text \<open>
  The state of a file, as the source observes it: \<open>Missing\<close> when \<^verbatim>\<open>os.path.exists\<close> is
  false; \<open>Unreadable err\<close> when \<^verbatim>\<open>open\<close> or the read raises \<open>err\<close> (an \<^verbatim>\<open>OSError\<close>, or
  the \<^verbatim>\<open>UnicodeDecodeError\<close> of text that is not UTF-8, which is a \<^verbatim>\<open>ValueError\<close> and
  not a \<^verbatim>\<open>JSONDecodeError\<close>); \<open>BadJson\<close> when \<^verbatim>\<open>json.load\<close> raises \<^verbatim>\<open>JSONDecodeError\<close>;
  \<open>Doc j\<close> when \<^verbatim>\<open>json.load\<close> returns \<open>j\<close>.
\<close>

datatype file_state = Missing | Unreadable py_error | BadJson | Doc json

text \<open>
  What the operating system answers to \<^verbatim>\<open>open(path, "w")\<close> followed by \<^verbatim>\<open>json.dump\<close>:
  the document is written; or \<^verbatim>\<open>open\<close> raises and the file is as it was; or \<^verbatim>\<open>open\<close> has
  truncated the file and a later write raises, which leaves a strict prefix of a document
  behind, and that is never a JSON document.
\<close>

datatype write_answer = WriteOk | OpenFails | DumpFails

definition write_json :: "write_answer \<Rightarrow> file_state \<Rightarrow> json \<Rightarrow> file_state \<times> (py_error + unit)" where
  "write_json ans old j =
     (case ans of
        WriteOk \<Rightarrow> (Doc j, Inr ())
      | OpenFails \<Rightarrow> (old, Inl OSError)
      | DumpFails \<Rightarrow> (BadJson, Inl OSError))"

section \<open>The items module and the built-in conversions\<close>

text \<open>
  \<^verbatim>\<open>from items import ITEMS, STOCK\<close>: the module is not among the sources, so the catalog
  \<open>ITEMS\<close> (a list of names) and the default stock \<open>STOCK\<close> (a dictionary from name to
  quantity) are parameters. So is Python's \<^verbatim>\<open>int(s)\<close> on a string, \<open>int_of_str\<close>, which is
  \<open>None\<close> where \<^verbatim>\<open>int\<close> raises \<^verbatim>\<open>ValueError\<close>.
\<close>

record env =
  ITEMS :: "string list"
  STOCK :: "(string \<times> int) list"
  int_of_str :: "string \<Rightarrow> int option"

text \<open>
  \<^verbatim>\<open>int(x)\<close> on a value read from JSON: an integer is itself, a Boolean is 0 or 1, a float
  is truncated towards zero (\<^verbatim>\<open>OverflowError\<close> on an infinity, \<^verbatim>\<open>ValueError\<close> on a NaN), a
  string is parsed, and \<^verbatim>\<open>None\<close>, a list and a dictionary raise \<^verbatim>\<open>TypeError\<close>.
\<close>

fun py_int :: "env \<Rightarrow> json \<Rightarrow> py_error + int" where
  "py_int e (JInt n) = Inr n"
| "py_int e (JBool b) = Inr (if b then 1 else 0)"
| "py_int e (JFloat (Finite r)) = Inr (if 0 \<le> r then \<lfloor>r\<rfloor> else \<lceil>r\<rceil>)"
| "py_int e (JFloat Infinite) = Inl OverflowError"
| "py_int e (JFloat NaN) = Inl ValueError"
| "py_int e (JStr s) = (case int_of_str e s of None \<Rightarrow> Inl ValueError | Some n \<Rightarrow> Inr n)"
| "py_int e JNull = Inl TypeError"
| "py_int e (JArr xs) = Inl TypeError"
| "py_int e (JObj kvs) = Inl TypeError"

text \<open>
  A decimal reader for the examples: an optional minus sign and ASCII digits. It agrees
  with \<^verbatim>\<open>int\<close> on the strings \<open>str_int\<close> produces and reads fewer strings than
  \<^verbatim>\<open>int\<close> does (no plus sign, no blanks around the number, no underscores, no digits
  outside ASCII); the examples parse plain digits only.
\<close>

definition is_digit :: "char \<Rightarrow> bool" where
  "is_digit c = ((48::nat) \<le> of_char c \<and> of_char c \<le> (57::nat))"

definition dec_nat :: "string \<Rightarrow> nat" where
  "dec_nat s = foldl (\<lambda>acc c. 10 * acc + (of_char c - 48)) 0 s"

definition dec_int :: "string \<Rightarrow> int option" where
  "dec_int s =
     (case s of
        [] \<Rightarrow> None
      | c # cs \<Rightarrow>
          if c = CHR ''-'' then (if cs \<noteq> [] \<and> list_all is_digit cs then Some (- int (dec_nat cs)) else None)
          else if list_all is_digit s then Some (int (dec_nat s)) else None)"

section \<open>The texts of the messages\<close>

text \<open>
  The literals of the source that are not ASCII, as their UTF-8 bytes: the plus and minus
  marks of the item buttons, the arrows, the back button, the multiplication sign of a
  basket line, the placeholder of an empty basket, the titles and the alerts.
\<close>

definition txt_plus :: string where
  "txt_plus =
   [CHR 0xE2, CHR 0x9E, CHR 0x95, CHR 0x20]"

definition txt_minus :: string where
  "txt_minus =
   [CHR 0xE2, CHR 0x9E, CHR 0x96, CHR 0x20]"

definition txt_left :: string where
  "txt_left =
   [CHR 0xE2, CHR 0xAC, CHR 0x85, CHR 0xEF, CHR 0xB8, CHR 0x8F]"

definition txt_right :: string where
  "txt_right =
   [CHR 0xE2, CHR 0x9E, CHR 0xA1, CHR 0xEF, CHR 0xB8, CHR 0x8F]"

definition txt_back :: string where
  "txt_back =
   [CHR 0xE2, CHR 0xAC, CHR 0x85, CHR 0xEF, CHR 0xB8, CHR 0x8F, CHR 0x20, CHR 0xD0, CHR 0x9D,
    CHR 0xD0, CHR 0xB0, CHR 0xD0, CHR 0xB7, CHR 0xD0, CHR 0xB0, CHR 0xD0, CHR 0xB4]"

definition txt_times :: string where
  "txt_times =
   [CHR 0x20, CHR 0xC3, CHR 0x97, CHR 0x20]"

definition txt_basket_empty :: string where
  "txt_basket_empty =
   [CHR 0xD0, CHR 0xBF, CHR 0xD0, CHR 0xBE, CHR 0xD0, CHR 0xBA, CHR 0xD0, CHR 0xB0, CHR 0x20,
    CHR 0xD0, CHR 0xBF, CHR 0xD1, CHR 0x83, CHR 0xD1, CHR 0x81, CHR 0xD1, CHR 0x82, CHR 0xD0,
    CHR 0xBE, CHR 0xE2, CHR 0x80, CHR 0xA6]"

definition txt_current_order :: string where
  "txt_current_order =
   [CHR 0xF0, CHR 0x9F, CHR 0x93, CHR 0x9D, CHR 0x20, CHR 0xD0, CHR 0xA2, CHR 0xD0, CHR 0xB5,
    CHR 0xD0, CHR 0xBA, CHR 0xD1, CHR 0x83, CHR 0xD1, CHR 0x89, CHR 0xD0, CHR 0xB8, CHR 0xD0,
    CHR 0xB9, CHR 0x20, CHR 0xD0, CHR 0xB7, CHR 0xD0, CHR 0xB0, CHR 0xD0, CHR 0xBA, CHR 0xD0,
    CHR 0xB0, CHR 0xD0, CHR 0xB7, CHR 0x3A]"

definition txt_to_return :: string where
  "txt_to_return =
   [CHR 0xF0, CHR 0x9F, CHR 0x93, CHR 0x9D, CHR 0x20, CHR 0xD0, CHR 0x9A, CHR 0x20, CHR 0xD0,
    CHR 0xB2, CHR 0xD0, CHR 0xBE, CHR 0xD0, CHR 0xB7, CHR 0xD0, CHR 0xB2, CHR 0xD1, CHR 0x80,
    CHR 0xD0, CHR 0xB0, CHR 0xD1, CHR 0x82, CHR 0xD1, CHR 0x83, CHR 0x3A]"

definition txt_order_empty :: string where
  "txt_order_empty =
   [CHR 0xD0, CHR 0x97, CHR 0xD0, CHR 0xB0, CHR 0xD0, CHR 0xBA, CHR 0xD0, CHR 0xB0, CHR 0xD0,
    CHR 0xB7, CHR 0x20, CHR 0xD0, CHR 0xBF, CHR 0xD1, CHR 0x83, CHR 0xD1, CHR 0x81, CHR 0xD1,
    CHR 0x82, CHR 0x20, CHR 0xF0, CHR 0x9F, CHR 0x9A, CHR 0xAB]"

definition txt_not_enough :: string where
  "txt_not_enough =
   [CHR 0xE2, CHR 0x9D, CHR 0x8C, CHR 0x20, CHR 0xD0, CHR 0x9D, CHR 0xD0, CHR 0xB5, CHR 0xD0,
    CHR 0xB4, CHR 0xD0, CHR 0xBE, CHR 0xD1, CHR 0x81, CHR 0xD1, CHR 0x82, CHR 0xD0, CHR 0xB0,
    CHR 0xD1, CHR 0x82, CHR 0xD0, CHR 0xBE, CHR 0xD1, CHR 0x87, CHR 0xD0, CHR 0xBD, CHR 0xD0,
    CHR 0xBE, CHR 0x3A, CHR 0x20]"

definition txt_order_confirmed :: string where
  "txt_order_confirmed =
   [CHR 0xE2, CHR 0x9C, CHR 0x85, CHR 0x20, CHR 0xD0, CHR 0x97, CHR 0xD0, CHR 0xB0, CHR 0xD0,
    CHR 0xBA, CHR 0xD0, CHR 0xB0, CHR 0xD0, CHR 0xB7, CHR 0x20, CHR 0xD0, CHR 0xBF, CHR 0xD0,
    CHR 0xBE, CHR 0xD0, CHR 0xB4, CHR 0xD1, CHR 0x82, CHR 0xD0, CHR 0xB2, CHR 0xD0, CHR 0xB5,
    CHR 0xD1, CHR 0x80, CHR 0xD0, CHR 0xB6, CHR 0xD0, CHR 0xB4, CHR 0xD0, CHR 0xB5, CHR 0xD0,
    CHR 0xBD, CHR 0x21]"

definition txt_main_menu :: string where
  "txt_main_menu =
   [CHR 0xD0, CHR 0x93, CHR 0xD0, CHR 0xBB, CHR 0xD0, CHR 0xB0, CHR 0xD0, CHR 0xB2, CHR 0xD0,
    CHR 0xBD, CHR 0xD0, CHR 0xBE, CHR 0xD0, CHR 0xB5, CHR 0x20, CHR 0xD0, CHR 0xBC, CHR 0xD0,
    CHR 0xB5, CHR 0xD0, CHR 0xBD, CHR 0xD1, CHR 0x8E, CHR 0x20, CHR 0xF0, CHR 0x9F, CHR 0x93,
    CHR 0x8B]"

definition txt_return_empty :: string where
  "txt_return_empty =
   [CHR 0xD0, CHR 0x9A, CHR 0xD0, CHR 0xBE, CHR 0xD1, CHR 0x80, CHR 0xD0, CHR 0xB7, CHR 0xD0,
    CHR 0xB8, CHR 0xD0, CHR 0xBD, CHR 0xD0, CHR 0xB0, CHR 0x20, CHR 0xD0, CHR 0xBF, CHR 0xD1,
    CHR 0x83, CHR 0xD1, CHR 0x81, CHR 0xD1, CHR 0x82, CHR 0xD0, CHR 0xB0, CHR 0x20, CHR 0xF0,
    CHR 0x9F, CHR 0x9A, CHR 0xAB]"

definition txt_return_accepted :: string where
  "txt_return_accepted =
   [CHR 0xE2, CHR 0x9C, CHR 0x85, CHR 0x20, CHR 0xD0, CHR 0x92, CHR 0xD0, CHR 0xBE, CHR 0xD0,
    CHR 0xB7, CHR 0xD0, CHR 0xB2, CHR 0xD1, CHR 0x80, CHR 0xD0, CHR 0xB0, CHR 0xD1, CHR 0x82,
    CHR 0x20, CHR 0xD0, CHR 0xBF, CHR 0xD1, CHR 0x80, CHR 0xD0, CHR 0xB8, CHR 0xD0, CHR 0xBD,
    CHR 0xD1, CHR 0x8F, CHR 0xD1, CHR 0x82, CHR 0x21]"





definition txt_pick_date :: string where
  "txt_pick_date =
   [CHR 0xD0, CHR 0x92, CHR 0xD1, CHR 0x8B, CHR 0xD0, CHR 0xB1, CHR 0xD0, CHR 0xB5, CHR 0xD1,
    CHR 0x80, CHR 0xD0, CHR 0xB8, CHR 0x20, CHR 0xD0, CHR 0xB4, CHR 0xD0, CHR 0xB0, CHR 0xD1,
    CHR 0x82, CHR 0xD1, CHR 0x83, CHR 0x20, CHR 0xD0, CHR 0xB2, CHR 0xD0, CHR 0xBE, CHR 0xD0,
    CHR 0xB7, CHR 0xD0, CHR 0xB2, CHR 0xD1, CHR 0x80, CHR 0xD0, CHR 0xB0, CHR 0xD1, CHR 0x82,
    CHR 0xD0, CHR 0xB0, CHR 0x20, CHR 0xF0, CHR 0x9F, CHR 0x93, CHR 0x85]"

section \<open>Pagination\<close>

text \<open>
  \<^verbatim>\<open>paginate(total, per_page, page)\<close>, lines 128 to 133. Python's \<^verbatim>\<open>//\<close> is floor division,
  as \<open>div\<close> on \<open>int\<close> is; it raises \<^verbatim>\<open>ZeroDivisionError\<close> for a zero divisor.
\<close>

definition paginate :: "int \<Rightarrow> int \<Rightarrow> int \<Rightarrow> py_error + (int \<times> int \<times> int)" where
  "paginate tot per_page page =
     (if per_page = 0 then Inl ZeroDivisionError
      else
        let pages = max 1 ((tot + per_page - 1) div per_page);
            page' = max 0 (min page (pages - 1));
            start = page' * per_page;
            stop = min tot (start + per_page)
        in Inr (start, stop, pages))"

section \<open>Keyboards and the item picker\<close>

text \<open>
  An \<^verbatim>\<open>InlineKeyboardButton\<close> is its text and its callback data; an
  \<^verbatim>\<open>InlineKeyboardMarkup\<close> is its rows. The three fixed keyboards \<^verbatim>\<open>main_menu_kb()\<close>,
  \<^verbatim>\<open>order_menu_kb()\<close> and \<^verbatim>\<open>return_menu_kb()\<close> (lines 79 to 108) take no argument and read
  no state; they are named, not spelled out.
\<close>

datatype button = Button string string

datatype markup = NoMarkup | MainMenuKb | OrderMenuKb | ReturnMenuKb | Inline "button list list"

text \<open>
  What a handler asks of the chat transport, in order: \<^verbatim>\<open>message.edit_text\<close>,
  \<^verbatim>\<open>message.answer\<close>, \<^verbatim>\<open>callback.answer()\<close> and \<^verbatim>\<open>callback.answer(text, show_alert=True)\<close>.
\<close>

datatype action =
    EditText string markup
  | SendMessage string markup
  | AnswerCallback
  | Alert string

text \<open>The rows of the loop of lines 141 to 146, one for each index of the page.\<close>

fun item_rows :: "env \<Rightarrow> string \<Rightarrow> int list \<Rightarrow> py_error + button list list" where
  "item_rows e prefix [] = Inr []"
| "item_rows e prefix (idx # idxs) =
     (case py_index (ITEMS e) idx of
        Inl err \<Rightarrow> Inl err
      | Inr item \<Rightarrow>
          (case item_rows e prefix idxs of
             Inl err \<Rightarrow> Inl err
           | Inr rows \<Rightarrow>
               Inr ([Button (txt_plus @ item) (prefix @ ''_add_'' @ str_int idx),
                     Button (txt_minus @ item) (prefix @ ''_remove_'' @ str_int idx)] # rows)))"

text \<open>
  \<^verbatim>\<open>items_keyboard(prefix, page)\<close>, lines 136 to 155. The navigation row tests the page
  that was asked for, not the clamped one.
\<close>

definition items_keyboard :: "env \<Rightarrow> string \<Rightarrow> int \<Rightarrow> py_error + button list list" where
  "items_keyboard e prefix page =
     (case paginate (int (length (ITEMS e))) 10 page of
        Inl err \<Rightarrow> Inl err
      | Inr (start, stop, pages) \<Rightarrow>
          (case item_rows e prefix [start..stop - 1] of
             Inl err \<Rightarrow> Inl err
           | Inr rows \<Rightarrow>
               (let nav =
                      (if page > 0
                       then [Button txt_left (prefix @ ''_items_page_'' @ str_int (page - 1))]
                       else [])
                      @ (if page < pages - 1
                         then [Button txt_right (prefix @ ''_items_page_'' @ str_int (page + 1))]
                         else [])
                in Inr (rows @ (if nav \<noteq> [] then [nav] else [])
                        @ [[Button txt_back (prefix @ ''_items_back'')]]))))"

section \<open>Sessions\<close>

text \<open>
  The session of a user (lines 32 to 36 and 160 to 167) and the state of the process: the
  two files and the dictionary \<^verbatim>\<open>user_sessions\<close>. A handler mutates the session
  dictionary it got from \<^verbatim>\<open>ensure_session\<close> in place; \<open>put_session\<close> is that mutation.
\<close>

datatype mode = Order | Return

record session =
  basket :: "(string \<times> int) list"
  return_date :: "string option"
  mode :: mode

record world =
  data_file :: file_state
  orders_file :: file_state
  user_sessions :: "int \<Rightarrow> session option"

text \<open>\<^verbatim>\<open>callback.from_user\<close>: the identifier and the optional user name.\<close>

record user =
  user_id :: int
  username :: "string option"

definition ensure_session :: "world \<Rightarrow> int \<Rightarrow> world \<times> session" where
  "ensure_session w uid =
     (case user_sessions w uid of
        None \<Rightarrow>
          (let s = \<lparr>basket = [], return_date = None, mode = Order\<rparr>
           in (w\<lparr>user_sessions := (user_sessions w)(uid \<mapsto> s)\<rparr>, s))
      | Some s \<Rightarrow> (w, s))"

definition put_session :: "world \<Rightarrow> int \<Rightarrow> session \<Rightarrow> world" where
  "put_session w uid s = w\<lparr>user_sessions := (user_sessions w)(uid \<mapsto> s)\<rparr>"

text \<open>\<^verbatim>\<open>render_basket_text(basket, title)\<close>, lines 170 to 179.\<close>

fun basket_lines :: "(string \<times> int) list \<Rightarrow> string list" where
  "basket_lines [] = []"
| "basket_lines ((name, qty) # rest) =
     (if qty > 0 then (name @ txt_times @ str_int qty) # basket_lines rest
      else basket_lines rest)"

definition render_basket_text :: "(string \<times> int) list \<Rightarrow> string \<Rightarrow> string" where
  "render_basket_text b title =
     (let lines = title # basket_lines b;
          any_items = list_ex (\<lambda>(name, qty). qty > 0) b
      in py_join [CHR 0x0A] (if \<not> any_items then lines @ [txt_basket_empty] else lines))"

section \<open>The ledger store and the transaction log\<close>

text \<open>\<^verbatim>\<open>data.items()\<close>: only a dictionary has it.\<close>

fun json_items :: "json \<Rightarrow> py_error + (string \<times> json) list" where
  "json_items (JObj kvs) = Inr kvs"
| "json_items j = Inl AttributeError"

text \<open>The loop of lines 53 and 54: \<^verbatim>\<open>merged[name] = int(qty)\<close>.\<close>

fun merge_stock :: "env \<Rightarrow> (string \<times> int) list \<Rightarrow> (string \<times> json) list
    \<Rightarrow> py_error + (string \<times> int) list" where
  "merge_stock e merged [] = Inr merged"
| "merge_stock e merged ((name, qty) # rest) =
     (case py_int e qty of
        Inl err \<Rightarrow> Inl err
      | Inr n \<Rightarrow> merge_stock e (AList.update name n merged) rest)"

text \<open>
  \<^verbatim>\<open>load_stock()\<close>, lines 42 to 55. \<^verbatim>\<open>open\<close> is outside the \<^verbatim>\<open>try\<close>, and the \<^verbatim>\<open>try\<close> catches
  \<^verbatim>\<open>json.JSONDecodeError\<close> only.
\<close>

definition load_stock :: "env \<Rightarrow> world \<Rightarrow> py_error + (string \<times> int) list" where
  "load_stock e w =
     (case (case data_file w of
              Missing \<Rightarrow> Inr (JObj [])
            | Unreadable err \<Rightarrow> Inl err
            | BadJson \<Rightarrow> Inr (JObj [])
            | Doc j \<Rightarrow> Inr j) of
        Inl err \<Rightarrow> Inl err
      | Inr data \<Rightarrow>
          (case json_items data of
             Inl err \<Rightarrow> Inl err
           | Inr kvs \<Rightarrow> merge_stock e (STOCK e) kvs))"

text \<open>\<^verbatim>\<open>json.dump\<close> of a dictionary from names to integers.\<close>

definition json_of_stock :: "(string \<times> int) list \<Rightarrow> json" where
  "json_of_stock stock = JObj (map (\<lambda>(name, qty). (name, JInt qty)) stock)"

text \<open>\<^verbatim>\<open>save_stock(stock)\<close>, lines 58 to 60.\<close>

definition save_stock :: "write_answer \<Rightarrow> world \<Rightarrow> (string \<times> int) list
    \<Rightarrow> world \<times> (py_error + unit)" where
  "save_stock ans w stock =
     (case write_json ans (data_file w) (json_of_stock stock) of
        (f, r) \<Rightarrow> (w\<lparr>data_file := f\<rparr>, r))"

text \<open>
  \<^verbatim>\<open>append_order_record(record)\<close>, lines 63 to 75. Here \<^verbatim>\<open>open\<close> is inside the \<^verbatim>\<open>try\<close>,
  which catches every \<^verbatim>\<open>Exception\<close>; \<^verbatim>\<open>records.append\<close> is outside it, and only a list
  has \<^verbatim>\<open>append\<close>. \<open>log_records\<close> is the value of \<^verbatim>\<open>records\<close> after lines 65 to 72.
\<close>

definition log_records :: "file_state \<Rightarrow> json" where
  "log_records f =
     (case f of
        Missing \<Rightarrow> JArr []
      | Unreadable err \<Rightarrow> JArr []
      | BadJson \<Rightarrow> JArr []
      | Doc j \<Rightarrow> j)"

definition append_order_record :: "write_answer \<Rightarrow> world \<Rightarrow> json \<Rightarrow> world \<times> (py_error + unit)" where
  "append_order_record ans w record =
     (case log_records (orders_file w) of
        JArr rs \<Rightarrow>
          (case write_json ans (orders_file w) (JArr (rs @ [record])) of
             (f, r) \<Rightarrow> (w\<lparr>orders_file := f\<rparr>, r))
      | _ \<Rightarrow> (w, Inl AttributeError))"

section \<open>The clock\<close>

text \<open>
  \<^verbatim>\<open>datetime.utcnow()\<close> is an input of a handler. \<^verbatim>\<open>datetime.isoformat()\<close> is the standard
  library's: year, month and day, the letter T, hour, minute and second, each padded with
  zeros, and the six digits of the microsecond after a point when it is not zero.
\<close>

record datetime =
  dt_year :: nat
  dt_month :: nat
  dt_day :: nat
  dt_hour :: nat
  dt_minute :: nat
  dt_second :: nat
  dt_microsecond :: nat

definition zpad :: "nat \<Rightarrow> nat \<Rightarrow> string" where
  "zpad width n = replicate (width - length (str_nat n)) CHR ''0'' @ str_nat n"

definition isoformat :: "datetime \<Rightarrow> string" where
  "isoformat t =
     zpad 4 (dt_year t) @ ''-'' @ zpad 2 (dt_month t) @ ''-'' @ zpad 2 (dt_day t) @ ''T''
     @ zpad 2 (dt_hour t) @ '':'' @ zpad 2 (dt_minute t) @ '':'' @ zpad 2 (dt_second t)
     @ (if dt_microsecond t = 0 then [] else ''.'' @ zpad 6 (dt_microsecond t))"

text \<open>
  What the environment answers during one run of a confirm handler: to the write of the
  ledger file, to the write of the log file, and to \<^verbatim>\<open>datetime.utcnow()\<close>.
\<close>

record io =
  data_write :: write_answer
  orders_write :: write_answer
  utcnow :: datetime

section \<open>The handlers\<close>

text \<open>
  A handler takes the state of the process and the event and returns the new state with
  either the exception it raised or the requests it made of the transport. The state is
  returned in both cases: what a handler did before it raised stays done.
\<close>



text \<open>
  Line 276 (and 392): \<^verbatim>\<open>basket[item] = basket.get(item, 0) + 1\<close>. Lines 289 and 290 (and
  403 and 404): \<^verbatim>\<open>if basket.get(item, 0) > 0: basket[item] -= 1\<close>, where \<^verbatim>\<open>basket[item]\<close>
  raises \<^verbatim>\<open>KeyError\<close> on a key that is not there.
\<close>

definition basket_increment :: "(string \<times> int) list \<Rightarrow> string \<Rightarrow> (string \<times> int) list" where
  "basket_increment b item = AList.update item (dict_get b item 0 + 1) b"

definition basket_decrement :: "(string \<times> int) list \<Rightarrow> string \<Rightarrow> py_error + (string \<times> int) list" where
  "basket_decrement b item =
     (if dict_get b item 0 > 0
      then (case map_of b item of
              None \<Rightarrow> Inl KeyError
            | Some v \<Rightarrow> Inr (AList.update item (v - 1) b))
      else Inr b)"

text \<open>
  \<^verbatim>\<open>order_add\<close> (lines 270 to 280) and \<^verbatim>\<open>return_add\<close> (lines 387 to 395) are the same
  function but for the prefix of the keyboard and the title of the text; so are
  \<^verbatim>\<open>order_remove\<close> (lines 283 to 293) and \<^verbatim>\<open>return_remove\<close> (lines 398 to 407). The
  index is parsed before the session is looked up.
\<close>

definition add_tap :: "string \<Rightarrow> string \<Rightarrow> env \<Rightarrow> world \<Rightarrow> user \<Rightarrow> string
    \<Rightarrow> world \<times> (py_error + action list)" where
  "add_tap prefix title e w0 u data =
     (case int_of_str e (rsplit_last data) of
        None \<Rightarrow> (w0, Inl ValueError)
      | Some idx \<Rightarrow>
          (case ensure_session w0 (user_id u) of
             (w, session) \<Rightarrow>
               (case py_index (ITEMS e) idx of
                  Inl err \<Rightarrow> (w, Inl err)
                | Inr item \<Rightarrow>
                    (let b = basket_increment (basket session) item;
                         w' = put_session w (user_id u) (session\<lparr>basket := b\<rparr>);
                         text = render_basket_text b title
                     in case items_keyboard e prefix 0 of
                          Inl err \<Rightarrow> (w', Inl err)
                        | Inr kb \<Rightarrow> (w', Inr [EditText text (Inline kb), AnswerCallback])))))"

definition remove_tap :: "string \<Rightarrow> string \<Rightarrow> env \<Rightarrow> world \<Rightarrow> user \<Rightarrow> string
    \<Rightarrow> world \<times> (py_error + action list)" where
  "remove_tap prefix title e w0 u data =
     (case int_of_str e (rsplit_last data) of
        None \<Rightarrow> (w0, Inl ValueError)
      | Some idx \<Rightarrow>
          (case ensure_session w0 (user_id u) of
             (w, session) \<Rightarrow>
               (case py_index (ITEMS e) idx of
                  Inl err \<Rightarrow> (w, Inl err)
                | Inr item \<Rightarrow>
                    (case basket_decrement (basket session) item of
                       Inl err \<Rightarrow> (w, Inl err)
                     | Inr b \<Rightarrow>
                         (let w' = put_session w (user_id u) (session\<lparr>basket := b\<rparr>);
                              text = render_basket_text b title
                          in case items_keyboard e prefix 0 of
                               Inl err \<Rightarrow> (w', Inl err)
                             | Inr kb \<Rightarrow> (w', Inr [EditText text (Inline kb), AnswerCallback]))))))"

definition order_add :: "env \<Rightarrow> world \<Rightarrow> user \<Rightarrow> string \<Rightarrow> world \<times> (py_error + action list)" where
  "order_add = add_tap ''order'' txt_current_order"

definition order_remove :: "env \<Rightarrow> world \<Rightarrow> user \<Rightarrow> string \<Rightarrow> world \<times> (py_error + action list)" where
  "order_remove = remove_tap ''order'' txt_current_order"

definition return_add :: "env \<Rightarrow> world \<Rightarrow> user \<Rightarrow> string \<Rightarrow> world \<times> (py_error + action list)" where
  "return_add = add_tap ''return'' txt_to_return"

definition return_remove :: "env \<Rightarrow> world \<Rightarrow> user \<Rightarrow> string \<Rightarrow> world \<times> (py_error + action list)" where
  "return_remove = remove_tap ''return'' txt_to_return"




section \<open>Commit\<close>

text \<open>The dictionary comprehension of lines 321 and 413: the items with a positive count.\<close>

definition effective :: "(string \<times> int) list \<Rightarrow> (string \<times> int) list" where
  "effective b = filter (\<lambda>(k, v). v > 0) b"

text \<open>
  The validation loop of lines 327 to 330: the first item of the order, in the order of
  the dictionary, that the stock falls short of.
\<close>

fun first_short :: "(string \<times> int) list \<Rightarrow> (string \<times> int) list \<Rightarrow> string option" where
  "first_short stock [] = None"
| "first_short stock ((item, qty) # rest) =
     (if dict_get stock item 0 < qty then Some item else first_short stock rest)"

text \<open>The loops of lines 332 and 333 and of lines 418 and 419.\<close>

fun apply_order :: "(string \<times> int) list \<Rightarrow> (string \<times> int) list \<Rightarrow> (string \<times> int) list" where
  "apply_order stock [] = stock"
| "apply_order stock ((item, qty) # rest) =
     apply_order (AList.update item (dict_get stock item 0 - qty) stock) rest"

fun apply_return :: "(string \<times> int) list \<Rightarrow> (string \<times> int) list \<Rightarrow> (string \<times> int) list" where
  "apply_return stock [] = stock"
| "apply_return stock ((item, qty) # rest) =
     apply_return (AList.update item (dict_get stock item 0 + qty) stock) rest"

text \<open>
  The record of lines 335 to 342 and 421 to 428, as \<^verbatim>\<open>json.dump\<close> writes it: \<^verbatim>\<open>None\<close> is
  \<^verbatim>\<open>null\<close>.
\<close>

definition json_opt_str :: "string option \<Rightarrow> json" where
  "json_opt_str x = (case x of None \<Rightarrow> JNull | Some s \<Rightarrow> JStr s)"

definition transaction_record :: "string \<Rightarrow> user \<Rightarrow> (string \<times> int) list \<Rightarrow> string option
    \<Rightarrow> datetime \<Rightarrow> json" where
  "transaction_record kind u b date now =
     JObj [(''type'', JStr kind),
           (''user_id'', JInt (user_id u)),
           (''username'', json_opt_str (username u)),
           (''basket'', json_of_stock b),
           (''return_date'', json_opt_str date),
           (''timestamp'', JStr (isoformat now))]"

text \<open>What a confirm handler asks of the transport once the commit is done.\<close>

definition order_done :: "action list" where
  "order_done = [EditText txt_order_confirmed NoMarkup, SendMessage txt_main_menu MainMenuKb,
                 AnswerCallback]"

definition return_done :: "action list" where
  "return_done = [EditText txt_return_accepted NoMarkup, SendMessage txt_main_menu MainMenuKb,
                  AnswerCallback]"

text \<open>\<^verbatim>\<open>order_confirm\<close>, lines 317 to 348.\<close>

definition order_confirm :: "env \<Rightarrow> io \<Rightarrow> world \<Rightarrow> user \<Rightarrow> world \<times> (py_error + action list)" where
  "order_confirm e io w0 u =
     (case ensure_session w0 (user_id u) of
        (w, session) \<Rightarrow>
          (let order = effective (basket session)
           in if order = [] then (w, Inr [Alert txt_order_empty])
              else
                (case load_stock e w of
                   Inl err \<Rightarrow> (w, Inl err)
                 | Inr stock \<Rightarrow>
                     (case first_short stock order of
                        Some item \<Rightarrow> (w, Inr [Alert (txt_not_enough @ item)])
                      | None \<Rightarrow>
                          (case save_stock (data_write io) w (apply_order stock order) of
                             (w1, Inl err) \<Rightarrow> (w1, Inl err)
                           | (w1, Inr saved) \<Rightarrow>
                               (case append_order_record (orders_write io) w1
                                       (transaction_record ''order'' u order (return_date session)
                                          (utcnow io)) of
                                  (w2, Inl err) \<Rightarrow> (w2, Inl err)
                                | (w2, Inr logged) \<Rightarrow>
                                    (put_session w2 (user_id u)
                                       (session\<lparr>basket := [], return_date := None\<rparr>),
                                     Inr order_done)))))))"

text \<open>\<^verbatim>\<open>return_confirm\<close>, lines 410 to 433.\<close>

definition return_confirm :: "env \<Rightarrow> io \<Rightarrow> world \<Rightarrow> user \<Rightarrow> world \<times> (py_error + action list)" where
  "return_confirm e io w0 u =
     (case ensure_session w0 (user_id u) of
        (w, session) \<Rightarrow>
          (let ret = effective (basket session)
           in if ret = [] then (w, Inr [Alert txt_return_empty])
              else
                (case load_stock e w of
                   Inl err \<Rightarrow> (w, Inl err)
                 | Inr stock \<Rightarrow>
                     (case save_stock (data_write io) w (apply_return stock ret) of
                        (w1, Inl err) \<Rightarrow> (w1, Inl err)
                      | (w1, Inr saved) \<Rightarrow>
                          (case append_order_record (orders_write io) w1
                                  (transaction_record ''return'' u ret (return_date session)
                                     (utcnow io)) of
                             (w2, Inl err) \<Rightarrow> (w2, Inl err)
                           | (w2, Inr logged) \<Rightarrow>
                               (put_session w2 (user_id u)
                                  (session\<lparr>basket := [], return_date := None\<rparr>),
                                Inr return_done))))))"

section \<open>Taps on the item picker\<close>

text \<open>
  A tap on a button of the item picker: which of the four handlers, and the callback
  data. The dispatcher runs the handlers one event at a time and goes on after a handler
  that raised.
\<close>

datatype tap = OrderAdd string | OrderRemove string | ReturnAdd string | ReturnRemove string

fun tap_step :: "env \<Rightarrow> user \<Rightarrow> world \<Rightarrow> tap \<Rightarrow> world" where
  "tap_step e u w (OrderAdd data) = fst (order_add e w u data)"
| "tap_step e u w (OrderRemove data) = fst (order_remove e w u data)"
| "tap_step e u w (ReturnAdd data) = fst (return_add e w u data)"
| "tap_step e u w (ReturnRemove data) = fst (return_remove e w u data)"

definition run_taps :: "env \<Rightarrow> user \<Rightarrow> world \<Rightarrow> tap list \<Rightarrow> world" where
  "run_taps e u w taps = foldl (tap_step e u) w taps"

text \<open>The basket of a user, an empty one when the user has no session yet.\<close>

definition basket_of :: "world \<Rightarrow> int \<Rightarrow> (string \<times> int) list" where
  "basket_of w uid = basket (snd (ensure_session w uid))"

definition date_of :: "world \<Rightarrow> int \<Rightarrow> string option" where
  "date_of w uid = return_date (snd (ensure_session w uid))"

section \<open>ISO 8601 dates and times\<close>





section \<open>The date picker\<close>

text \<open>
  \<^verbatim>\<open>today + timedelta(days=i)\<close> is the standard library's: \<open>i\<close> times the next day of the
  Gregorian calendar, with \<^verbatim>\<open>OverflowError\<close> past the year 9999.
\<close>

definition is_leap :: "nat \<Rightarrow> bool" where
  "is_leap y = (y mod 4 = 0 \<and> (y mod 100 \<noteq> 0 \<or> y mod 400 = 0))"

definition days_in_month :: "nat \<Rightarrow> nat \<Rightarrow> nat" where
  "days_in_month y m =
     (if m = 2 then (if is_leap y then 29 else 28)
      else if m = 4 \<or> m = 6 \<or> m = 9 \<or> m = 11 then 30
      else 31)"

definition next_day :: "datetime \<Rightarrow> py_error + datetime" where
  "next_day t =
     (if dt_day t < days_in_month (dt_year t) (dt_month t) then Inr (t\<lparr>dt_day := dt_day t + 1\<rparr>)
      else if dt_month t < 12 then Inr (t\<lparr>dt_month := dt_month t + 1, dt_day := 1\<rparr>)
      else if dt_year t < 9999 then Inr (t\<lparr>dt_year := dt_year t + 1, dt_month := 1, dt_day := 1\<rparr>)
      else Inl OverflowError)"

fun plus_days :: "datetime \<Rightarrow> nat \<Rightarrow> py_error + datetime" where
  "plus_days t 0 = Inr t"
| "plus_days t (Suc n) =
     (case next_day t of
        Inl err \<Rightarrow> Inl err
      | Inr t' \<Rightarrow> plus_days t' n)"

text \<open>
  \<^verbatim>\<open>day.strftime("%d.%m")\<close> and \<^verbatim>\<open>day.strftime("%Y-%m-%d")\<close>, as the standard library
  documents them: each number padded with zeros.
\<close>

definition strftime_dm :: "datetime \<Rightarrow> string" where
  "strftime_dm t = zpad 2 (dt_day t) @ ''.'' @ zpad 2 (dt_month t)"

definition strftime_ymd :: "datetime \<Rightarrow> string" where
  "strftime_ymd t = zpad 4 (dt_year t) @ ''-'' @ zpad 2 (dt_month t) @ ''-'' @ zpad 2 (dt_day t)"


text \<open>
  \<^verbatim>\<open>date_keyboard(prefix)\<close>, lines 111 to 125, with the reading of \<^verbatim>\<open>datetime.today()\<close> as
  an input. \<open>date_rows\<close> is the loop of lines 116 to 121 over the days that are left, with
  the rows that are full and the row that is being filled.
\<close>

fun date_rows :: "string \<Rightarrow> datetime \<Rightarrow> nat list \<Rightarrow> button list list \<Rightarrow> button list
    \<Rightarrow> py_error + (button list list \<times> button list)" where
  "date_rows prefix today [] rows row = Inr (rows, row)"
| "date_rows prefix today (i # days) rows row =
     (case plus_days today i of
        Inl err \<Rightarrow> Inl err
      | Inr day \<Rightarrow>
          (let row' = row @ [Button (strftime_dm day) (prefix @ ''_date_'' @ strftime_ymd day)]
           in if length row' = 3 then date_rows prefix today days (rows @ [row']) []
              else date_rows prefix today days rows row'))"

definition date_keyboard :: "string \<Rightarrow> datetime \<Rightarrow> py_error + button list list" where
  "date_keyboard prefix today =
     (case date_rows prefix today [1..<8] [] [] of
        Inl err \<Rightarrow> Inl err
      | Inr (rows, row) \<Rightarrow>
          Inr ((if row \<noteq> [] then rows @ [row] else rows)
               @ [[Button txt_back (prefix @ ''_date_back'')]]))"

text \<open>
  \<^verbatim>\<open>order_date_open\<close> (lines 296 to 299) and \<^verbatim>\<open>return_date_open\<close> (lines 359 to 362)
  show the date keyboard and leave the state as it is.
\<close>

definition date_open :: "string \<Rightarrow> datetime \<Rightarrow> world \<Rightarrow> world \<times> (py_error + action list)" where
  "date_open prefix today w =
     (case date_keyboard prefix today of
        Inl err \<Rightarrow> (w, Inl err)
      | Inr kb \<Rightarrow> (w, Inr [EditText txt_pick_date (Inline kb), AnswerCallback]))"

definition order_date_open :: "datetime \<Rightarrow> world \<Rightarrow> world \<times> (py_error + action list)" where
  "order_date_open = date_open ''order''"

definition return_date_open :: "datetime \<Rightarrow> world \<Rightarrow> world \<times> (py_error + action list)" where
  "return_date_open = date_open ''return''"

section \<open>The states a process reaches\<close>



section \<open>A small catalog for the examples\<close>

text \<open>
  The catalog of two items with two microphones and five cables in stock, a user, a clock
  reading with both writes going through, and the state of a process that has no files
  yet and one session.
\<close>

definition ex_env :: env where
  "ex_env = \<lparr>ITEMS = [''Mic'', ''Cable''], STOCK = [(''Mic'', 2), (''Cable'', 5)],
             int_of_str = dec_int\<rparr>"

definition ex_user :: user where
  "ex_user = \<lparr>user_id = 7, username = Some ''ann''\<rparr>"

definition ex_io :: io where
  "ex_io = \<lparr>data_write = WriteOk, orders_write = WriteOk,
            utcnow = \<lparr>dt_year = 2024, dt_month = 5, dt_day = 17, dt_hour = 9, dt_minute = 30,
                       dt_second = 0, dt_microsecond = 0\<rparr>\<rparr>"

definition ex_world :: "(string \<times> int) list \<Rightarrow> string option \<Rightarrow> mode \<Rightarrow> world" where
  "ex_world b d m =
     \<lparr>data_file = Missing, orders_file = Missing,
      user_sessions = [7 \<mapsto> \<lparr>basket = b, return_date = d, mode = m\<rparr>]\<rparr>"

text \<open>A catalog of eleven items, which the item picker shows on two pages.\<close>

definition ex_env11 :: env where
  "ex_env11 = \<lparr>ITEMS = [''Mic'', ''Cable'', ''Stand'', ''Mixer'', ''Amp'', ''Lamp'',
                        ''Tripod'', ''Camera'', ''Lens'', ''Screen'', ''Laptop''],
               STOCK = [], int_of_str = dec_int\<rparr>"

section \<open>Properties of pagination\<close>

lemma ceil_div_bounds:
  fixes tot per_page :: int
  assumes "1 \<le> per_page"
  shows "tot \<le> ((tot + per_page - 1) div per_page) * per_page"
    and "((tot + per_page - 1) div per_page - 1) * per_page < tot"
proof -
  define q where "q = (tot + per_page - 1) div per_page"
  define r where "r = (tot + per_page - 1) mod per_page"
  have r: "0 \<le> r" "r < per_page"
    using assms by (simp_all add: r_def)
  have eq: "tot + per_page - 1 = q * per_page + r"
    by (simp add: q_def r_def)
  show "tot \<le> ((tot + per_page - 1) div per_page) * per_page"
    using eq r unfolding q_def by linarith
  have "(q - 1) * per_page < tot"
    using eq r by (simp add: algebra_simps)
  then show "((tot + per_page - 1) div per_page - 1) * per_page < tot"
    by (simp add: q_def)
qed

lemma ceil_div_pos:
  fixes tot per_page :: int
  assumes "1 \<le> per_page"
  shows "(tot + per_page - 1) div per_page = \<lceil>real_of_int tot / real_of_int per_page\<rceil>"
proof -
  define q where "q = (tot + per_page - 1) div per_page"
  have up: "tot \<le> q * per_page" and lo: "(q - 1) * per_page < tot"
    using ceil_div_bounds [OF assms, of tot] by (simp_all add: q_def)
  have pos: "0 < real_of_int per_page"
    using assms by simp
  have "real_of_int tot \<le> real_of_int (q * per_page)"
    using up by (simp only: of_int_le_iff)
  then have a: "real_of_int tot / real_of_int per_page \<le> real_of_int q"
    using pos by (simp add: pos_divide_le_eq)
  have "real_of_int ((q - 1) * per_page) < real_of_int tot"
    using lo by (simp only: of_int_less_iff)
  then have b: "real_of_int q - 1 < real_of_int tot / real_of_int per_page"
    using pos by (simp add: pos_less_divide_eq)
  have "\<lceil>real_of_int tot / real_of_int per_page\<rceil> = q"
    using a b by (intro ceiling_unique) simp_all
  then show ?thesis
    by (simp add: q_def)
qed

text \<open>
  Claim C4. For every \<open>tot \<ge> 0\<close>, \<open>per_page \<ge> 1\<close> and any integer \<open>page\<close>, \<open>paginate\<close>
  returns \<open>(start, stop, pages)\<close> where \<open>pages\<close> is the ceiling of \<open>tot / per_page\<close> but at
  least 1, the start is that of the requested page clamped into \<open>[0, pages - 1]\<close>,
  \<open>0 \<le> start \<le> stop \<le> tot\<close> and \<open>stop - start \<le> per_page\<close>.
\<close>

theorem paginate_range:
  assumes "0 \<le> tot" and "1 \<le> per_page"
  shows "\<exists>start stop pages eff.
           paginate tot per_page page = Inr (start, stop, pages)
         \<and> pages = max 1 \<lceil>real_of_int tot / real_of_int per_page\<rceil>
         \<and> eff = max 0 (min page (pages - 1))
         \<and> 0 \<le> eff \<and> eff \<le> pages - 1
         \<and> start = eff * per_page
         \<and> stop = min tot (start + per_page)
         \<and> 0 \<le> start \<and> start \<le> stop \<and> stop \<le> tot
         \<and> stop - start \<le> per_page"
proof -
  define q where "q = (tot + per_page - 1) div per_page"
  define pages where "pages = max 1 q"
  define eff where "eff = max 0 (min page (pages - 1))"
  define start where "start = eff * per_page"
  define stop where "stop = min tot (start + per_page)"
  have run: "paginate tot per_page page = Inr (start, stop, pages)"
    using assms(2)
    by (simp add: paginate_def Let_def q_def pages_def eff_def start_def stop_def)
  have ceil: "pages = max 1 \<lceil>real_of_int tot / real_of_int per_page\<rceil>"
    using ceil_div_pos [OF assms(2), of tot] by (simp add: pages_def q_def)
  have pages1: "1 \<le> pages"
    by (simp add: pages_def)
  have eff: "0 \<le> eff" "eff \<le> pages - 1"
    using pages1 by (simp_all add: eff_def)
  have start0: "0 \<le> start"
    using eff(1) assms(2) by (simp add: start_def)
  have "eff * per_page \<le> (pages - 1) * per_page"
    using eff(2) assms(2) by (intro mult_right_mono) simp_all
  moreover have "(pages - 1) * per_page \<le> tot"
  proof (cases "1 \<le> q")
    case True
    then have "pages = q" by (simp add: pages_def)
    then show ?thesis
      using ceil_div_bounds(2) [OF assms(2), of tot] by (simp add: q_def)
  next
    case False
    then have "pages = 1" by (simp add: pages_def)
    then show ?thesis using assms(1) by simp
  qed
  ultimately have start_le: "start \<le> tot"
    by (simp add: start_def)
  have "start \<le> stop" "stop \<le> tot" "stop - start \<le> per_page"
    using start_le assms(2) by (simp_all add: stop_def)
  with run ceil eff start0 show ?thesis
    using eff_def start_def stop_def by blast
qed

theorem paginate_range_witness:
  "(0::int) \<le> 23 \<and> (1::int) \<le> 10
   \<and> paginate 23 10 7 = Inr (20, 23, 3)
   \<and> (\<exists>start stop pages eff.
           paginate 23 10 7 = Inr (start, stop, pages)
         \<and> pages = max 1 \<lceil>real_of_int 23 / real_of_int 10\<rceil>
         \<and> eff = max 0 (min 7 (pages - 1))
         \<and> 0 \<le> eff \<and> eff \<le> pages - 1
         \<and> start = eff * 10
         \<and> stop = min 23 (start + 10)
         \<and> 0 \<le> start \<and> start \<le> stop \<and> stop \<le> 23
         \<and> stop - start \<le> 10)"
proof -
  have h1: "(0::int) \<le> 23" and h2: "(1::int) \<le> 10" by simp_all
  have run: "paginate 23 10 7 = Inr (20, 23, 3)"
    by (simp add: paginate_def Let_def)
  show ?thesis
    using h1 h2 run paginate_range [OF h1 h2, of 7] by blast
qed

section \<open>Properties of dictionaries\<close>

lemma map_of_rev_distinct:
  "distinct (map fst al) \<Longrightarrow> map_of (rev al) = map_of al"
proof (induction al)
  case Nil
  then show ?case by simp
next
  case (Cons p al)
  obtain k v where p: "p = (k, v)" by (cases p)
  from Cons.prems p have notin: "k \<notin> fst ` set al" and d: "distinct (map fst al)"
    by auto
  have "map_of al k = None"
    using notin by (simp add: map_of_eq_None_iff)
  then have "[k \<mapsto> v] ++ map_of al = (map_of al)(k \<mapsto> v)"
    by (auto simp: map_add_def fun_eq_iff split: option.splits)
  then show ?case
    using Cons.IH [OF d] p by simp
qed

lemma update_entries:
  "(k', v') \<in> set (AList.update k v al) \<Longrightarrow> (k', v') \<in> set al \<or> (k' = k \<and> v' = v)"
  by (induction al) (auto split: if_splits)

lemma dict_get_Some: "map_of d k = Some v \<Longrightarrow> dict_get d k dflt = v"
  by (simp add: dict_get_def)

lemma dict_get_None: "map_of d k = None \<Longrightarrow> dict_get d k dflt = dflt"
  by (simp add: dict_get_def)

lemma dict_get_update_same: "dict_get (AList.update k v d) k dflt = v"
  by (simp add: dict_get_def update_conv')

lemma dict_get_update_other: "k' \<noteq> k \<Longrightarrow> dict_get (AList.update k v d) k' dflt = dict_get d k' dflt"
  by (simp add: dict_get_def update_conv')

lemma distinct_entries_map_of:
  "distinct (map fst d) \<Longrightarrow> (k, v) \<in> set d \<longleftrightarrow> map_of d k = Some v"
  by (auto dest: map_of_SomeD)

section \<open>Properties of the ledger store\<close>

lemma merge_stock_ints:
  "\<exists>r. merge_stock e merged (map (\<lambda>(name, qty). (name, JInt qty)) d) = Inr r
       \<and> map_of r = map_of merged ++ map_of (rev d)
       \<and> fst ` set r = fst ` set merged \<union> fst ` set d
       \<and> (distinct (map fst merged) \<longrightarrow> distinct (map fst r))"
proof (induction d arbitrary: merged)
  case Nil
  then show ?case by simp
next
  case (Cons p d)
  obtain k v where p: "p = (k, v)" by (cases p)
  from Cons.IH [of "AList.update k v merged"] obtain r where
    r: "merge_stock e (AList.update k v merged) (map (\<lambda>(name, qty). (name, JInt qty)) d) = Inr r"
       "map_of r = map_of (AList.update k v merged) ++ map_of (rev d)"
       "fst ` set r = fst ` set (AList.update k v merged) \<union> fst ` set d"
       "distinct (map fst (AList.update k v merged)) \<longrightarrow> distinct (map fst r)"
    by blast
  have "merge_stock e merged (map (\<lambda>(name, qty). (name, JInt qty)) (p # d)) = Inr r"
    using r(1) p by simp
  moreover have "map_of r = map_of merged ++ map_of (rev (p # d))"
    using r(2) p by (simp add: update_conv' map_add_upd_left fun_eq_iff map_add_def split: option.splits)
  moreover have "fst ` set r = fst ` set merged \<union> fst ` set (p # d)"
    using r(3) p by (simp add: dom_update)
  moreover have "distinct (map fst merged) \<longrightarrow> distinct (map fst r)"
    using r(4) by (simp add: distinct_update)
  ultimately show ?case by blast
qed

lemma load_after_save:
  assumes "data_file w = Doc (json_of_stock stock)"
  shows "\<exists>r. load_stock e w = Inr r
       \<and> map_of r = map_of (STOCK e) ++ map_of (rev stock)
       \<and> fst ` set r = fst ` set (STOCK e) \<union> fst ` set stock
       \<and> (distinct (map fst (STOCK e)) \<longrightarrow> distinct (map fst r))"
  using merge_stock_ints [of e "STOCK e" stock] assms
  by (simp add: load_stock_def json_of_stock_def)

lemma merge_stock_keys:
  "merge_stock e merged kvs = Inr r \<Longrightarrow> fst ` set merged \<subseteq> fst ` set r"
proof (induction kvs arbitrary: merged)
  case Nil
  then show ?case by simp
next
  case (Cons p kvs)
  obtain k j where p: "p = (k, j)" by (cases p)
  from Cons.prems p obtain n where n: "py_int e j = Inr n"
    and rest: "merge_stock e (AList.update k n merged) kvs = Inr r"
    by (auto split: sum.splits)
  from Cons.IH [OF rest] show ?case
    by (auto simp: dom_update)
qed

lemma merge_stock_distinct:
  "merge_stock e merged kvs = Inr r \<Longrightarrow> distinct (map fst merged) \<Longrightarrow> distinct (map fst r)"
proof (induction kvs arbitrary: merged)
  case Nil
  then show ?case by simp
next
  case (Cons p kvs)
  obtain k j where p: "p = (k, j)" by (cases p)
  from Cons.prems p obtain n where n: "py_int e j = Inr n"
    and rest: "merge_stock e (AList.update k n merged) kvs = Inr r"
    by (auto split: sum.splits)
  from Cons.IH [OF rest] Cons.prems(2) show ?case
    by (simp add: distinct_update)
qed

lemma load_stock_keys:
  "load_stock e w = Inr stock \<Longrightarrow> fst ` set (STOCK e) \<subseteq> fst ` set stock"
  by (auto simp: load_stock_def split: file_state.splits sum.splits dest: merge_stock_keys)

lemma load_stock_distinct:
  "load_stock e w = Inr stock \<Longrightarrow> distinct (map fst (STOCK e)) \<Longrightarrow> distinct (map fst stock)"
  by (auto simp: load_stock_def split: file_state.splits sum.splits dest: merge_stock_distinct)

section \<open>Properties of the validation and apply passes\<close>

lemma apply_order_map_of:
  "distinct (map fst order) \<Longrightarrow>
   map_of (apply_order stock order) k =
     (case map_of order k of None \<Rightarrow> map_of stock k | Some q \<Rightarrow> Some (dict_get stock k 0 - q))"
proof (induction order arbitrary: stock)
  case Nil
  then show ?case by simp
next
  case (Cons p order)
  obtain item qty where p: "p = (item, qty)" by (cases p)
  from Cons.prems p have notin: "item \<notin> fst ` set order" and d: "distinct (map fst order)"
    by auto
  have none: "map_of order item = None"
    using notin by (simp add: map_of_eq_None_iff)
  show ?case
  proof (cases "k = item")
    case True
    then show ?thesis
      using Cons.IH [OF d, of "AList.update item (dict_get stock item 0 - qty) stock"] p none
      by (simp add: update_conv')
  next
    case False
    then show ?thesis
      using Cons.IH [OF d, of "AList.update item (dict_get stock item 0 - qty) stock"] p
      by (simp add: update_conv' dict_get_update_other split: option.splits)
  qed
qed

lemma apply_return_map_of:
  "distinct (map fst ret) \<Longrightarrow>
   map_of (apply_return stock ret) k =
     (case map_of ret k of None \<Rightarrow> map_of stock k | Some q \<Rightarrow> Some (dict_get stock k 0 + q))"
proof (induction ret arbitrary: stock)
  case Nil
  then show ?case by simp
next
  case (Cons p ret)
  obtain item qty where p: "p = (item, qty)" by (cases p)
  from Cons.prems p have notin: "item \<notin> fst ` set ret" and d: "distinct (map fst ret)"
    by auto
  have none: "map_of ret item = None"
    using notin by (simp add: map_of_eq_None_iff)
  show ?case
  proof (cases "k = item")
    case True
    then show ?thesis
      using Cons.IH [OF d, of "AList.update item (dict_get stock item 0 + qty) stock"] p none
      by (simp add: update_conv')
  next
    case False
    then show ?thesis
      using Cons.IH [OF d, of "AList.update item (dict_get stock item 0 + qty) stock"] p
      by (simp add: update_conv' dict_get_update_other split: option.splits)
  qed
qed

lemma apply_order_keys: "fst ` set stock \<subseteq> fst ` set (apply_order stock order)"
proof (induction order arbitrary: stock)
  case Nil
  show ?case by simp
next
  case (Cons p order)
  obtain item qty where p: "p = (item, qty)" by (cases p)
  have "fst ` set stock \<subseteq> fst ` set (AList.update item (dict_get stock item 0 - qty) stock)"
    by (simp add: dom_update subset_insertI)
  also have "\<dots> \<subseteq> fst ` set (apply_order (AList.update item (dict_get stock item 0 - qty) stock) order)"
    by (rule Cons.IH)
  finally show ?case using p by simp
qed

lemma apply_return_keys: "fst ` set stock \<subseteq> fst ` set (apply_return stock ret)"
proof (induction ret arbitrary: stock)
  case Nil
  show ?case by simp
next
  case (Cons p ret)
  obtain item qty where p: "p = (item, qty)" by (cases p)
  have "fst ` set stock \<subseteq> fst ` set (AList.update item (dict_get stock item 0 + qty) stock)"
    by (simp add: dom_update subset_insertI)
  also have "\<dots> \<subseteq> fst ` set (apply_return (AList.update item (dict_get stock item 0 + qty) stock) ret)"
    by (rule Cons.IH)
  finally show ?case using p by simp
qed

lemma apply_order_distinct:
  "distinct (map fst stock) \<Longrightarrow> distinct (map fst (apply_order stock order))"
  by (induction order arbitrary: stock) (auto simp: distinct_update)

lemma apply_return_distinct:
  "distinct (map fst stock) \<Longrightarrow> distinct (map fst (apply_return stock ret))"
  by (induction ret arbitrary: stock) (auto simp: distinct_update)

lemma first_short_None:
  "first_short stock order = None \<longleftrightarrow> (\<forall>(item, qty) \<in> set order. qty \<le> dict_get stock item 0)"
  by (induction order) (auto split: if_splits)

lemma first_short_Some:
  "first_short stock order = Some item \<Longrightarrow>
     \<exists>qty. (item, qty) \<in> set order \<and> dict_get stock item 0 < qty"
  by (induction order) (auto split: if_splits)

lemma effective_distinct: "distinct (map fst b) \<Longrightarrow> distinct (map fst (effective b))"
  by (simp add: effective_def distinct_map_filter)

lemma effective_entries: "(k, v) \<in> set (effective b) \<longleftrightarrow> (k, v) \<in> set b \<and> 0 < v"
  by (auto simp: effective_def)

section \<open>Properties of the commit\<close>

lemma ensure_session_Some: "user_sessions w uid = Some s \<Longrightarrow> ensure_session w uid = (w, s)"
  by (simp add: ensure_session_def)

lemma ensure_session_files:
  "ensure_session w0 uid = (w, s) \<Longrightarrow>
     data_file w = data_file w0 \<and> orders_file w = orders_file w0 \<and> user_sessions w uid = Some s"
  by (auto simp: ensure_session_def Let_def split: option.splits)

lemma load_stock_cong: "data_file w = data_file w0 \<Longrightarrow> load_stock e w = load_stock e w0"
  by (simp add: load_stock_def)

lemma save_stock_Inr:
  "save_stock ans w stock = (w1, Inr x) \<longleftrightarrow>
     ans = WriteOk \<and> w1 = w\<lparr>data_file := Doc (json_of_stock stock)\<rparr>"
  by (cases ans) (auto simp: save_stock_def write_json_def)

lemma save_stock_Inl:
  "save_stock ans w stock = (w1, Inl err) \<Longrightarrow>
     ans \<noteq> WriteOk \<and> orders_file w1 = orders_file w \<and> user_sessions w1 = user_sessions w"
  by (cases ans) (auto simp: save_stock_def write_json_def)

lemma append_order_record_Inr:
  "append_order_record ans w r = (w2, Inr x) \<longleftrightarrow>
     ans = WriteOk \<and> (\<exists>rs. log_records (orders_file w) = JArr rs
                          \<and> w2 = w\<lparr>orders_file := Doc (JArr (rs @ [r]))\<rparr>)"
  by (cases ans; cases "log_records (orders_file w)")
     (auto simp: append_order_record_def write_json_def)

lemma append_order_record_Inl:
  "append_order_record ans w r = (w2, Inl err) \<Longrightarrow>
     data_file w2 = data_file w \<and> user_sessions w2 = user_sessions w"
  by (cases ans; cases "log_records (orders_file w)")
     (auto simp: append_order_record_def write_json_def)

lemma order_done_not_alert [simp]:
  "order_done \<noteq> [Alert t]" "return_done \<noteq> [Alert t]"
  "[Alert t] \<noteq> order_done" "[Alert t] \<noteq> return_done"
  by (simp_all add: order_done_def return_done_def)

lemma order_confirm_done:
  assumes "order_confirm e io w0 u = (w', Inr order_done)"
  shows "\<exists>w s stock rs.
           ensure_session w0 (user_id u) = (w, s)
         \<and> effective (basket s) \<noteq> []
         \<and> load_stock e w0 = Inr stock
         \<and> first_short stock (effective (basket s)) = None
         \<and> data_write io = WriteOk \<and> orders_write io = WriteOk
         \<and> log_records (orders_file w0) = JArr rs
         \<and> w' = w\<lparr>data_file := Doc (json_of_stock (apply_order stock (effective (basket s)))),
                  orders_file := Doc (JArr (rs @ [transaction_record ''order'' u (effective (basket s))
                                                     (return_date s) (utcnow io)])),
                  user_sessions := (user_sessions w)(user_id u \<mapsto> s\<lparr>basket := [], return_date := None\<rparr>)\<rparr>"
proof -
  obtain w s where es: "ensure_session w0 (user_id u) = (w, s)"
    by (cases "ensure_session w0 (user_id u)")
  note files = ensure_session_files [OF es]
  from assms es have ne: "effective (basket s) \<noteq> []"
    by (auto simp: order_confirm_def Let_def split: if_splits)
  from assms es ne obtain stock where ld: "load_stock e w = Inr stock"
    by (cases "load_stock e w") (auto simp: order_confirm_def Let_def)
  from assms es ne ld have fs: "first_short stock (effective (basket s)) = None"
    by (cases "first_short stock (effective (basket s))") (auto simp: order_confirm_def Let_def)
  obtain w1 r1 where sv: "save_stock (data_write io) w (apply_order stock (effective (basket s))) = (w1, r1)"
    by (cases "save_stock (data_write io) w (apply_order stock (effective (basket s)))")
  from assms es ne ld fs sv obtain x where r1: "r1 = Inr x"
    by (cases r1) (auto simp: order_confirm_def Let_def)
  obtain w2 r2 where ap: "append_order_record (orders_write io) w1
      (transaction_record ''order'' u (effective (basket s)) (return_date s) (utcnow io)) = (w2, r2)"
    by (cases "append_order_record (orders_write io) w1
      (transaction_record ''order'' u (effective (basket s)) (return_date s) (utcnow io))")
  from assms es ne ld fs sv r1 ap obtain y where r2: "r2 = Inr y"
    by (cases r2) (auto simp: order_confirm_def Let_def)
  from assms es ne ld fs sv r1 ap r2 have w': "w' = put_session w2 (user_id u) (s\<lparr>basket := [], return_date := None\<rparr>)"
    by (auto simp: order_confirm_def Let_def)
  from sv r1 have s1: "data_write io = WriteOk"
      "w1 = w\<lparr>data_file := Doc (json_of_stock (apply_order stock (effective (basket s))))\<rparr>"
    by (simp_all add: save_stock_Inr)
  from ap r2 obtain rs where s2: "orders_write io = WriteOk" "log_records (orders_file w1) = JArr rs"
      "w2 = w1\<lparr>orders_file := Doc (JArr (rs @ [transaction_record ''order'' u (effective (basket s))
                                                     (return_date s) (utcnow io)]))\<rparr>"
    by (auto simp: append_order_record_Inr)
  have "load_stock e w0 = Inr stock"
    using ld files by (simp add: load_stock_def)
  moreover have "log_records (orders_file w0) = JArr rs"
    using s2(2) s1(2) files by simp
  ultimately show ?thesis
    using es ne fs s1 s2 w' by (auto simp: put_session_def)
qed

lemma return_confirm_done:
  assumes "return_confirm e io w0 u = (w', Inr return_done)"
  shows "\<exists>w s stock rs.
           ensure_session w0 (user_id u) = (w, s)
         \<and> effective (basket s) \<noteq> []
         \<and> load_stock e w0 = Inr stock
         \<and> data_write io = WriteOk \<and> orders_write io = WriteOk
         \<and> log_records (orders_file w0) = JArr rs
         \<and> w' = w\<lparr>data_file := Doc (json_of_stock (apply_return stock (effective (basket s)))),
                  orders_file := Doc (JArr (rs @ [transaction_record ''return'' u (effective (basket s))
                                                     (return_date s) (utcnow io)])),
                  user_sessions := (user_sessions w)(user_id u \<mapsto> s\<lparr>basket := [], return_date := None\<rparr>)\<rparr>"
proof -
  obtain w s where es: "ensure_session w0 (user_id u) = (w, s)"
    by (cases "ensure_session w0 (user_id u)")
  note files = ensure_session_files [OF es]
  from assms es have ne: "effective (basket s) \<noteq> []"
    by (auto simp: return_confirm_def Let_def split: if_splits)
  from assms es ne obtain stock where ld: "load_stock e w = Inr stock"
    by (cases "load_stock e w") (auto simp: return_confirm_def Let_def)
  obtain w1 r1 where sv: "save_stock (data_write io) w (apply_return stock (effective (basket s))) = (w1, r1)"
    by (cases "save_stock (data_write io) w (apply_return stock (effective (basket s)))")
  from assms es ne ld sv obtain x where r1: "r1 = Inr x"
    by (cases r1) (auto simp: return_confirm_def Let_def)
  obtain w2 r2 where ap: "append_order_record (orders_write io) w1
      (transaction_record ''return'' u (effective (basket s)) (return_date s) (utcnow io)) = (w2, r2)"
    by (cases "append_order_record (orders_write io) w1
      (transaction_record ''return'' u (effective (basket s)) (return_date s) (utcnow io))")
  from assms es ne ld sv r1 ap obtain y where r2: "r2 = Inr y"
    by (cases r2) (auto simp: return_confirm_def Let_def)
  from assms es ne ld sv r1 ap r2 have w': "w' = put_session w2 (user_id u) (s\<lparr>basket := [], return_date := None\<rparr>)"
    by (auto simp: return_confirm_def Let_def)
  from sv r1 have s1: "data_write io = WriteOk"
      "w1 = w\<lparr>data_file := Doc (json_of_stock (apply_return stock (effective (basket s))))\<rparr>"
    by (simp_all add: save_stock_Inr)
  from ap r2 obtain rs where s2: "orders_write io = WriteOk" "log_records (orders_file w1) = JArr rs"
      "w2 = w1\<lparr>orders_file := Doc (JArr (rs @ [transaction_record ''return'' u (effective (basket s))
                                                     (return_date s) (utcnow io)]))\<rparr>"
    by (auto simp: append_order_record_Inr)
  have "load_stock e w0 = Inr stock"
    using ld files by (simp add: load_stock_def)
  moreover have "log_records (orders_file w0) = JArr rs"
    using s2(2) s1(2) files by simp
  ultimately show ?thesis
    using es ne s1 s2 w' by (auto simp: put_session_def)
qed

lemma basket_of_sessions:
  "user_sessions w' = user_sessions w \<Longrightarrow> basket_of w' uid = basket_of w uid"
  "user_sessions w' = user_sessions w \<Longrightarrow> date_of w' uid = date_of w uid"
  by (auto simp: basket_of_def date_of_def ensure_session_def Let_def split: option.splits)

lemma basket_of_ensure:
  assumes "ensure_session w0 uid = (w, s)"
  shows "basket_of w0 uid = basket s" "date_of w0 uid = return_date s"
    "basket_of w uid = basket s" "date_of w uid = return_date s"
  using assms ensure_session_files [OF assms]
  by (simp_all add: basket_of_def date_of_def ensure_session_def split: option.splits)

lemma basket_of_put:
  "basket_of (w\<lparr>user_sessions := (user_sessions w)(uid \<mapsto> s)\<rparr>) uid = basket s"
  "date_of (w\<lparr>user_sessions := (user_sessions w)(uid \<mapsto> s)\<rparr>) uid = return_date s"
  by (simp_all add: basket_of_def date_of_def ensure_session_def)

lemma ensure_session_nonempty:
  assumes "basket_of w0 uid \<noteq> []"
  shows "\<exists>s. ensure_session w0 uid = (w0, s)"
  using assms by (auto simp: basket_of_def ensure_session_def Let_def split: option.splits)

lemma load_saved:
  assumes "data_file w' = Doc (json_of_stock st)"
    and "distinct (map fst st)"
    and "fst ` set (STOCK e) \<subseteq> fst ` set st"
    and "distinct (map fst (STOCK e))"
  shows "\<exists>r. load_stock e w' = Inr r \<and> map_of r = map_of st \<and> distinct (map fst r)"
proof -
  from load_after_save [OF assms(1), of e] obtain r where
    r: "load_stock e w' = Inr r" "map_of r = map_of (STOCK e) ++ map_of (rev st)"
       "distinct (map fst (STOCK e)) \<longrightarrow> distinct (map fst r)"
    by blast
  have "map_of (STOCK e) ++ map_of st = map_of st"
  proof
    fix k
    show "(map_of (STOCK e) ++ map_of st) k = map_of st k"
    proof (cases "map_of st k")
      case None
      then have "k \<notin> fst ` set st" by (simp add: map_of_eq_None_iff)
      then have "k \<notin> fst ` set (STOCK e)" using assms(3) by blast
      then have "map_of (STOCK e) k = None" by (simp add: map_of_eq_None_iff)
      then show ?thesis using None by (simp add: map_add_def)
    next
      case (Some v)
      then show ?thesis by (simp add: map_add_def)
    qed
  qed
  then have "map_of r = map_of st"
    using r(2) map_of_rev_distinct [OF assms(2)] by simp
  then show ?thesis using r(1) r(3) assms(4) by blast
qed

lemma order_confirm_ledger:
  assumes dn: "order_confirm e io w u = (w', Inr order_done)"
    and wf: "distinct (map fst (STOCK e))" "distinct (map fst (basket_of w (user_id u)))"
  shows "\<exists>stock stock'. load_stock e w = Inr stock \<and> load_stock e w' = Inr stock'
          \<and> distinct (map fst stock')
          \<and> first_short stock (effective (basket_of w (user_id u))) = None
          \<and> (\<forall>k. map_of stock' k =
                (case map_of (effective (basket_of w (user_id u))) k of
                   None \<Rightarrow> map_of stock k
                 | Some q \<Rightarrow> Some (dict_get stock k 0 - q)))"
proof -
  from order_confirm_done [OF dn] obtain w1 s stock rs where
    es: "ensure_session w (user_id u) = (w1, s)"
    and ld: "load_stock e w = Inr stock"
    and fs: "first_short stock (effective (basket s)) = None"
    and w': "data_file w' = Doc (json_of_stock (apply_order stock (effective (basket s))))"
    by auto
  have b: "basket_of w (user_id u) = basket s"
    using basket_of_ensure(1) [OF es] .
  have dE: "distinct (map fst (effective (basket s)))"
    using wf(2) b by (simp add: effective_distinct)
  have dS: "distinct (map fst stock)"
    using load_stock_distinct [OF ld wf(1)] .
  have keys: "fst ` set (STOCK e) \<subseteq> fst ` set (apply_order stock (effective (basket s)))"
    using load_stock_keys [OF ld] apply_order_keys [of stock "effective (basket s)"] by blast
  from load_saved [OF w' apply_order_distinct [OF dS] keys wf(1)] obtain stock' where
    s': "load_stock e w' = Inr stock'" "map_of stock' = map_of (apply_order stock (effective (basket s)))"
        "distinct (map fst stock')"
    by blast
  show ?thesis
    using ld s' fs b apply_order_map_of [OF dE, of stock] by auto
qed

lemma return_confirm_ledger:
  assumes dn: "return_confirm e io w u = (w', Inr return_done)"
    and wf: "distinct (map fst (STOCK e))" "distinct (map fst (basket_of w (user_id u)))"
  shows "\<exists>stock stock'. load_stock e w = Inr stock \<and> load_stock e w' = Inr stock'
          \<and> distinct (map fst stock')
          \<and> (\<forall>k. map_of stock' k =
                (case map_of (effective (basket_of w (user_id u))) k of
                   None \<Rightarrow> map_of stock k
                 | Some q \<Rightarrow> Some (dict_get stock k 0 + q)))"
proof -
  from return_confirm_done [OF dn] obtain w1 s stock rs where
    es: "ensure_session w (user_id u) = (w1, s)"
    and ld: "load_stock e w = Inr stock"
    and w': "data_file w' = Doc (json_of_stock (apply_return stock (effective (basket s))))"
    by auto
  have b: "basket_of w (user_id u) = basket s"
    using basket_of_ensure(1) [OF es] .
  have dE: "distinct (map fst (effective (basket s)))"
    using wf(2) b by (simp add: effective_distinct)
  have dS: "distinct (map fst stock)"
    using load_stock_distinct [OF ld wf(1)] .
  have keys: "fst ` set (STOCK e) \<subseteq> fst ` set (apply_return stock (effective (basket s)))"
    using load_stock_keys [OF ld] apply_return_keys [of stock "effective (basket s)"] by blast
  from load_saved [OF w' apply_return_distinct [OF dS] keys wf(1)] obtain stock' where
    s': "load_stock e w' = Inr stock'" "map_of stock' = map_of (apply_return stock (effective (basket s)))"
        "distinct (map fst stock')"
    by blast
  show ?thesis
    using ld s' b apply_return_map_of [OF dE, of stock] by auto
qed

lemma order_confirm_cases:
  assumes es: "ensure_session w0 (user_id u) = (w, s)"
    and run: "order_confirm e io w0 u = (w', r)"
  obtains
    (empty) "effective (basket s) = []" "w' = w" "r = Inr [Alert txt_order_empty]"
  | (load_fail) err where "effective (basket s) \<noteq> []" "load_stock e w = Inl err"
      "w' = w" "r = Inl err"
  | (short) stock item where "effective (basket s) \<noteq> []" "load_stock e w = Inr stock"
      "first_short stock (effective (basket s)) = Some item"
      "w' = w" "r = Inr [Alert (txt_not_enough @ item)]"
  | (save_fail) stock err where "effective (basket s) \<noteq> []" "load_stock e w = Inr stock"
      "first_short stock (effective (basket s)) = None"
      "save_stock (data_write io) w (apply_order stock (effective (basket s))) = (w', Inl err)"
      "r = Inl err"
  | (log_fail) stock w1 x err where "effective (basket s) \<noteq> []" "load_stock e w = Inr stock"
      "first_short stock (effective (basket s)) = None"
      "save_stock (data_write io) w (apply_order stock (effective (basket s))) = (w1, Inr x)"
      "append_order_record (orders_write io) w1
         (transaction_record ''order'' u (effective (basket s)) (return_date s) (utcnow io))
       = (w', Inl err)"
      "r = Inl err"
  | (committed) stock w1 x w2 y where "effective (basket s) \<noteq> []" "load_stock e w = Inr stock"
      "first_short stock (effective (basket s)) = None"
      "save_stock (data_write io) w (apply_order stock (effective (basket s))) = (w1, Inr x)"
      "append_order_record (orders_write io) w1
         (transaction_record ''order'' u (effective (basket s)) (return_date s) (utcnow io))
       = (w2, Inr y)"
      "w' = put_session w2 (user_id u) (s\<lparr>basket := [], return_date := None\<rparr>)"
      "r = Inr order_done"
proof (cases "effective (basket s) = []")
  case True
  with es run have "w' = w" "r = Inr [Alert txt_order_empty]"
    by (simp_all add: order_confirm_def Let_def)
  with True show ?thesis by (rule empty)
next
  case ne: False
  show ?thesis
  proof (cases "load_stock e w")
    case (Inl err)
    with es run ne have "w' = w" "r = Inl err"
      by (simp_all add: order_confirm_def Let_def)
    with ne Inl show ?thesis by (rule load_fail)
  next
    case ld: (Inr stock)
    show ?thesis
    proof (cases "first_short stock (effective (basket s))")
      case (Some item)
      with es run ne ld have "w' = w" "r = Inr [Alert (txt_not_enough @ item)]"
        by (simp_all add: order_confirm_def Let_def)
      with ne ld Some show ?thesis by (rule short)
    next
      case fs: None
      obtain w1 r1 where sv: "save_stock (data_write io) w (apply_order stock (effective (basket s))) = (w1, r1)"
        by (cases "save_stock (data_write io) w (apply_order stock (effective (basket s)))")
      show ?thesis
      proof (cases r1)
        case (Inl err)
        with es run ne ld fs sv have "w' = w1" "r = Inl err"
          by (simp_all add: order_confirm_def Let_def)
        with ne ld fs sv Inl show ?thesis by (intro save_fail) simp_all
      next
        case r1: (Inr x)
        obtain w2 r2 where ap: "append_order_record (orders_write io) w1
            (transaction_record ''order'' u (effective (basket s)) (return_date s) (utcnow io)) = (w2, r2)"
          by (cases "append_order_record (orders_write io) w1
            (transaction_record ''order'' u (effective (basket s)) (return_date s) (utcnow io))")
        show ?thesis
        proof (cases r2)
          case (Inl err)
          with es run ne ld fs sv r1 ap have "w' = w2" "r = Inl err"
            by (simp_all add: order_confirm_def Let_def)
          with ne ld fs sv r1 ap Inl show ?thesis by (intro log_fail) simp_all
        next
          case (Inr y)
          with es run ne ld fs sv r1 ap
          have "w' = put_session w2 (user_id u) (s\<lparr>basket := [], return_date := None\<rparr>)"
            "r = Inr order_done"
            by (simp_all add: order_confirm_def Let_def)
          with ne ld fs sv r1 ap Inr show ?thesis by (intro committed) simp_all
        qed
      qed
    qed
  qed
qed

lemma return_confirm_cases:
  assumes es: "ensure_session w0 (user_id u) = (w, s)"
    and run: "return_confirm e io w0 u = (w', r)"
  obtains
    (empty) "effective (basket s) = []" "w' = w" "r = Inr [Alert txt_return_empty]"
  | (load_fail) err where "effective (basket s) \<noteq> []" "load_stock e w = Inl err"
      "w' = w" "r = Inl err"
  | (save_fail) stock err where "effective (basket s) \<noteq> []" "load_stock e w = Inr stock"
      "save_stock (data_write io) w (apply_return stock (effective (basket s))) = (w', Inl err)"
      "r = Inl err"
  | (log_fail) stock w1 x err where "effective (basket s) \<noteq> []" "load_stock e w = Inr stock"
      "save_stock (data_write io) w (apply_return stock (effective (basket s))) = (w1, Inr x)"
      "append_order_record (orders_write io) w1
         (transaction_record ''return'' u (effective (basket s)) (return_date s) (utcnow io))
       = (w', Inl err)"
      "r = Inl err"
  | (committed) stock w1 x w2 y where "effective (basket s) \<noteq> []" "load_stock e w = Inr stock"
      "save_stock (data_write io) w (apply_return stock (effective (basket s))) = (w1, Inr x)"
      "append_order_record (orders_write io) w1
         (transaction_record ''return'' u (effective (basket s)) (return_date s) (utcnow io))
       = (w2, Inr y)"
      "w' = put_session w2 (user_id u) (s\<lparr>basket := [], return_date := None\<rparr>)"
      "r = Inr return_done"
proof (cases "effective (basket s) = []")
  case True
  with es run have "w' = w" "r = Inr [Alert txt_return_empty]"
    by (simp_all add: return_confirm_def Let_def)
  with True show ?thesis by (rule empty)
next
  case ne: False
  show ?thesis
  proof (cases "load_stock e w")
    case (Inl err)
    with es run ne have "w' = w" "r = Inl err"
      by (simp_all add: return_confirm_def Let_def)
    with ne Inl show ?thesis by (rule load_fail)
  next
    case ld: (Inr stock)
    obtain w1 r1 where sv: "save_stock (data_write io) w (apply_return stock (effective (basket s))) = (w1, r1)"
      by (cases "save_stock (data_write io) w (apply_return stock (effective (basket s)))")
    show ?thesis
    proof (cases r1)
      case (Inl err)
      with es run ne ld sv have "w' = w1" "r = Inl err"
        by (simp_all add: return_confirm_def Let_def)
      with ne ld sv Inl show ?thesis by (intro save_fail) simp_all
    next
      case r1: (Inr x)
      obtain w2 r2 where ap: "append_order_record (orders_write io) w1
          (transaction_record ''return'' u (effective (basket s)) (return_date s) (utcnow io)) = (w2, r2)"
        by (cases "append_order_record (orders_write io) w1
          (transaction_record ''return'' u (effective (basket s)) (return_date s) (utcnow io))")
      show ?thesis
      proof (cases r2)
        case (Inl err)
        with es run ne ld sv r1 ap have "w' = w2" "r = Inl err"
          by (simp_all add: return_confirm_def Let_def)
        with ne ld sv r1 ap Inl show ?thesis by (intro log_fail) simp_all
      next
        case (Inr y)
        with es run ne ld sv r1 ap
        have "w' = put_session w2 (user_id u) (s\<lparr>basket := [], return_date := None\<rparr>)"
          "r = Inr return_done"
          by (simp_all add: return_confirm_def Let_def)
        with ne ld sv r1 ap Inr show ?thesis by (intro committed) simp_all
      qed
    qed
  qed
qed

lemma order_confirm_session:
  assumes run: "order_confirm e io w0 u = (w', r)"
  shows "(r = Inr order_done \<longrightarrow> basket_of w' (user_id u) = [] \<and> date_of w' (user_id u) = None)
       \<and> (r \<noteq> Inr order_done \<longrightarrow> basket_of w' (user_id u) = basket_of w0 (user_id u)
                                  \<and> date_of w' (user_id u) = date_of w0 (user_id u))
       \<and> (data_write io \<noteq> WriteOk \<longrightarrow> r \<noteq> Inr order_done \<and> orders_file w' = orders_file w0)
       \<and> (effective (basket_of w0 (user_id u)) = [] \<longrightarrow> r = Inr [Alert txt_order_empty] \<and> w' = fst (ensure_session w0 (user_id u)))"
proof -
  obtain w s where es: "ensure_session w0 (user_id u) = (w, s)"
    by (cases "ensure_session w0 (user_id u)")
  note f = ensure_session_files [OF es]
  note b = basket_of_ensure [OF es]
  from es run show ?thesis
  proof (cases rule: order_confirm_cases)
    case empty
    then show ?thesis using b f es by simp
  next
    case (load_fail err)
    then show ?thesis using b f by simp
  next
    case (short stock item)
    then show ?thesis using b f by simp
  next
    case (save_fail stock err)
    from save_stock_Inl [OF save_fail(4)] save_fail show ?thesis
      using b f basket_of_sessions [of w' w "user_id u"] by simp
  next
    case (log_fail stock w1 x err)
    from log_fail(4) have w1: "data_write io = WriteOk"
        "w1 = w\<lparr>data_file := Doc (json_of_stock (apply_order stock (effective (basket s))))\<rparr>"
      by (simp_all add: save_stock_Inr)
    from append_order_record_Inl [OF log_fail(5)] w1 have "user_sessions w' = user_sessions w"
      by simp
    then show ?thesis
      using log_fail w1 b basket_of_sessions [of w' w "user_id u"] by simp
  next
    case (committed stock w1 x w2 y)
    from committed(4) have w1: "data_write io = WriteOk"
      by (simp_all add: save_stock_Inr)
    show ?thesis
      using committed w1 b by (simp add: put_session_def basket_of_put)
  qed
qed

lemma return_confirm_session:
  assumes run: "return_confirm e io w0 u = (w', r)"
  shows "(r = Inr return_done \<longrightarrow> basket_of w' (user_id u) = [] \<and> date_of w' (user_id u) = None)
       \<and> (r \<noteq> Inr return_done \<longrightarrow> basket_of w' (user_id u) = basket_of w0 (user_id u)
                                  \<and> date_of w' (user_id u) = date_of w0 (user_id u))
       \<and> (data_write io \<noteq> WriteOk \<longrightarrow> r \<noteq> Inr return_done \<and> orders_file w' = orders_file w0)
       \<and> (effective (basket_of w0 (user_id u)) = [] \<longrightarrow> r = Inr [Alert txt_return_empty] \<and> w' = fst (ensure_session w0 (user_id u)))"
proof -
  obtain w s where es: "ensure_session w0 (user_id u) = (w, s)"
    by (cases "ensure_session w0 (user_id u)")
  note f = ensure_session_files [OF es]
  note b = basket_of_ensure [OF es]
  from es run show ?thesis
  proof (cases rule: return_confirm_cases)
    case empty
    then show ?thesis using b f es by simp
  next
    case (load_fail err)
    then show ?thesis using b f by simp
  next
    case (save_fail stock err)
    from save_stock_Inl [OF save_fail(3)] save_fail show ?thesis
      using b f basket_of_sessions [of w' w "user_id u"] by simp
  next
    case (log_fail stock w1 x err)
    from log_fail(3) have w1: "data_write io = WriteOk"
        "w1 = w\<lparr>data_file := Doc (json_of_stock (apply_return stock (effective (basket s))))\<rparr>"
      by (simp_all add: save_stock_Inr)
    from append_order_record_Inl [OF log_fail(4)] w1 have "user_sessions w' = user_sessions w"
      by simp
    then show ?thesis
      using log_fail w1 b basket_of_sessions [of w' w "user_id u"] by simp
  next
    case (committed stock w1 x w2 y)
    from committed(3) have w1: "data_write io = WriteOk"
      by (simp_all add: save_stock_Inr)
    show ?thesis
      using committed w1 b by (simp add: put_session_def basket_of_put)
  qed
qed

text \<open>
  Claim C1. In an order commit, when some item of the effective basket (the entries with a
  positive count) asks for more than the ledger has of it (a name the ledger does not
  have counts as zero), the handler answers with the alert that names a short item, and
  the state is the one it started from: the ledger file and what \<open>load_stock\<close> reads from
  it are unchanged, and nothing is appended to the log.
\<close>

theorem order_insufficient_stock:
  assumes ld: "load_stock e w = Inr stock"
    and short: "(item, qty) \<in> set (effective (basket_of w (user_id u)))"
    and less: "dict_get stock item 0 < qty"
  shows "\<exists>short q.
           order_confirm e io w u = (w, Inr [Alert (txt_not_enough @ short)])
         \<and> (short, q) \<in> set (effective (basket_of w (user_id u)))
         \<and> dict_get stock short 0 < q
         \<and> data_file (fst (order_confirm e io w u)) = data_file w
         \<and> orders_file (fst (order_confirm e io w u)) = orders_file w
         \<and> load_stock e (fst (order_confirm e io w u)) = Inr stock"
proof -
  from short have "basket_of w (user_id u) \<noteq> []"
    by (auto simp: effective_def)
  from ensure_session_nonempty [OF this] obtain s where es: "ensure_session w (user_id u) = (w, s)"
    by blast
  have b: "basket_of w (user_id u) = basket s"
    using basket_of_ensure(1) [OF es] .
  have ne: "effective (basket s) \<noteq> []"
    using short b by auto
  have "first_short stock (effective (basket s)) \<noteq> None"
  proof
    assume "first_short stock (effective (basket s)) = None"
    then have "\<forall>(i, n) \<in> set (effective (basket s)). n \<le> dict_get stock i 0"
      by (simp add: first_short_None)
    with short b have "qty \<le> dict_get stock item 0"
      by fastforce
    with less show False by simp
  qed
  then obtain bad where bad: "first_short stock (effective (basket s)) = Some bad"
    by blast
  from first_short_Some [OF bad] obtain q where
    q: "(bad, q) \<in> set (effective (basket s))" "dict_get stock bad 0 < q"
    by blast
  have run: "order_confirm e io w u = (w, Inr [Alert (txt_not_enough @ bad)])"
    using es ne ld bad by (simp add: order_confirm_def Let_def)
  show ?thesis
    using run q b ld by auto
qed

theorem order_insufficient_stock_witness:
  "load_stock ex_env (ex_world [(''Mic'', 3)] None Order) = Inr [(''Mic'', 2), (''Cable'', 5)]
   \<and> (''Mic'', 3) \<in> set (effective (basket_of (ex_world [(''Mic'', 3)] None Order) (user_id ex_user)))
   \<and> dict_get [(''Mic'', 2), (''Cable'', 5)] ''Mic'' 0 < (3::int)
   \<and> (\<exists>short q.
           order_confirm ex_env ex_io (ex_world [(''Mic'', 3)] None Order) ex_user
             = (ex_world [(''Mic'', 3)] None Order, Inr [Alert (txt_not_enough @ short)])
         \<and> (short, q) \<in> set (effective (basket_of (ex_world [(''Mic'', 3)] None Order) (user_id ex_user)))
         \<and> dict_get [(''Mic'', 2), (''Cable'', 5)] short 0 < q
         \<and> data_file (fst (order_confirm ex_env ex_io (ex_world [(''Mic'', 3)] None Order) ex_user))
             = data_file (ex_world [(''Mic'', 3)] None Order)
         \<and> orders_file (fst (order_confirm ex_env ex_io (ex_world [(''Mic'', 3)] None Order) ex_user))
             = orders_file (ex_world [(''Mic'', 3)] None Order)
         \<and> load_stock ex_env (fst (order_confirm ex_env ex_io (ex_world [(''Mic'', 3)] None Order) ex_user))
             = Inr [(''Mic'', 2), (''Cable'', 5)])"
proof -
  have h1: "load_stock ex_env (ex_world [(''Mic'', 3)] None Order) = Inr [(''Mic'', 2), (''Cable'', 5)]"
    by (simp add: load_stock_def ex_env_def ex_world_def)
  have h2: "(''Mic'', 3) \<in> set (effective (basket_of (ex_world [(''Mic'', 3)] None Order) (user_id ex_user)))"
    by (simp add: effective_def basket_of_def ensure_session_def ex_world_def ex_user_def)
  have h3: "dict_get [(''Mic'', 2), (''Cable'', 5)] ''Mic'' 0 < (3::int)"
    by (simp add: dict_get_def)
  show ?thesis
    using h1 h2 h3 order_insufficient_stock [OF h1 h2 h3, of ex_io] by blast
qed

lemma split_result: "snd p = r \<Longrightarrow> p = (fst p, r)"
  by (cases p) simp

lemma ex_order_commit:
  "order_confirm ex_env ex_io (ex_world [(''Mic'', 1)] d m) ex_user =
     (\<lparr>data_file = Doc (json_of_stock [(''Mic'', 1), (''Cable'', 5)]),
       orders_file = Doc (JArr [transaction_record ''order'' ex_user [(''Mic'', 1)] d (utcnow ex_io)]),
       user_sessions = [7 \<mapsto> \<lparr>basket = [], return_date = None, mode = m\<rparr>]\<rparr>,
      Inr order_done)"
  by (simp add: order_confirm_def ensure_session_def ex_world_def ex_user_def ex_env_def ex_io_def
      effective_def load_stock_def dict_get_def save_stock_def write_json_def
      append_order_record_def log_records_def put_session_def)

lemma ex_return_commit:
  "return_confirm ex_env ex_io (ex_world [(''Mic'', 1)] d m) ex_user =
     (\<lparr>data_file = Doc (json_of_stock [(''Mic'', 3), (''Cable'', 5)]),
       orders_file = Doc (JArr [transaction_record ''return'' ex_user [(''Mic'', 1)] d (utcnow ex_io)]),
       user_sessions = [7 \<mapsto> \<lparr>basket = [], return_date = None, mode = m\<rparr>]\<rparr>,
      Inr return_done)"
  by (simp add: return_confirm_def ensure_session_def ex_world_def ex_user_def ex_env_def ex_io_def
      effective_def load_stock_def dict_get_def save_stock_def write_json_def
      append_order_record_def log_records_def put_session_def)

lemma ex_load:
  "load_stock ex_env \<lparr>data_file = Doc (json_of_stock st), orders_file = f, user_sessions = us\<rparr>
     = merge_stock ex_env [(''Mic'', 2), (''Cable'', 5)] (map (\<lambda>(name, qty). (name, JInt qty)) st)"
  by (simp add: load_stock_def json_of_stock_def ex_env_def)

lemma ex_basket: "basket_of (ex_world b d m) (user_id ex_user) = b"
  "date_of (ex_world b d m) (user_id ex_user) = d"
  by (simp_all add: basket_of_def date_of_def ensure_session_def ex_world_def ex_user_def)

text \<open>
  Claim C2. After a successful commit with effective basket \<open>E\<close>, the ledger that
  \<open>load_stock\<close> reads has, for every item of \<open>E\<close>, the quantity it had less the count of
  \<open>E\<close> in an order and plus that count in a return (where a return names an item the
  ledger did not have, it had zero of it), and every other item has the quantity it had.
  The keys of \<open>STOCK\<close> and of the basket are distinct, as those of a dictionary are.
\<close>

theorem commit_ledger_effect:
  assumes "distinct (map fst (STOCK e))"
    and "distinct (map fst (basket_of w (user_id u)))"
  shows "(snd (order_confirm e io w u) = Inr order_done \<longrightarrow>
            (\<exists>stock stock'.
                load_stock e w = Inr stock
              \<and> load_stock e (fst (order_confirm e io w u)) = Inr stock'
              \<and> (\<forall>(item, qty) \<in> set (effective (basket_of w (user_id u))).
                    \<exists>had. map_of stock item = Some had \<and> map_of stock' item = Some (had - qty))
              \<and> (\<forall>item. item \<notin> fst ` set (effective (basket_of w (user_id u)))
                    \<longrightarrow> map_of stock' item = map_of stock item)))
       \<and> (snd (return_confirm e io w u) = Inr return_done \<longrightarrow>
            (\<exists>stock stock'.
                load_stock e w = Inr stock
              \<and> load_stock e (fst (return_confirm e io w u)) = Inr stock'
              \<and> (\<forall>(item, qty) \<in> set (effective (basket_of w (user_id u))).
                    map_of stock' item = Some (dict_get stock item 0 + qty))
              \<and> (\<forall>item. item \<notin> fst ` set (effective (basket_of w (user_id u)))
                    \<longrightarrow> map_of stock' item = map_of stock item)))"
proof (intro conjI impI)
  let ?E = "effective (basket_of w (user_id u))"
  have dE: "distinct (map fst ?E)"
    using assms(2) by (rule effective_distinct)
  have inE: "\<And>item qty. (item, qty) \<in> set ?E \<Longrightarrow> map_of ?E item = Some qty"
    using dE by simp
  have outE: "\<And>item. item \<notin> fst ` set ?E \<Longrightarrow> map_of ?E item = None"
    by (simp add: map_of_eq_None_iff)
  {
    assume "snd (order_confirm e io w u) = Inr order_done"
    then have run: "order_confirm e io w u = (fst (order_confirm e io w u), Inr order_done)"
      by (rule split_result)
    from order_confirm_ledger [OF run assms] obtain stock stock' where
      l: "load_stock e w = Inr stock" "load_stock e (fst (order_confirm e io w u)) = Inr stock'"
      and fs: "first_short stock ?E = None"
      and m: "\<And>k. map_of stock' k =
                (case map_of ?E k of None \<Rightarrow> map_of stock k | Some q \<Rightarrow> Some (dict_get stock k 0 - q))"
      by blast
    have "\<exists>had. map_of stock item = Some had \<and> map_of stock' item = Some (had - qty)"
      if "(item, qty) \<in> set ?E" for item qty
    proof -
      from fs that have "qty \<le> dict_get stock item 0"
        by (fastforce simp: first_short_None)
      moreover from that have "0 < qty"
        by (simp add: effective_entries)
      ultimately obtain had where had: "map_of stock item = Some had"
        by (cases "map_of stock item") (auto simp: dict_get_def)
      then have "dict_get stock item 0 = had"
        by (rule dict_get_Some)
      then show ?thesis
        using had m [of item] inE [OF that] by simp
    qed
    moreover have "map_of stock' item = map_of stock item" if "item \<notin> fst ` set ?E" for item
      using m [of item] outE [OF that] by simp
    ultimately show "\<exists>stock stock'.
                load_stock e w = Inr stock
              \<and> load_stock e (fst (order_confirm e io w u)) = Inr stock'
              \<and> (\<forall>(item, qty) \<in> set ?E.
                    \<exists>had. map_of stock item = Some had \<and> map_of stock' item = Some (had - qty))
              \<and> (\<forall>item. item \<notin> fst ` set ?E \<longrightarrow> map_of stock' item = map_of stock item)"
      using l by blast
  }
  {
    assume "snd (return_confirm e io w u) = Inr return_done"
    then have run: "return_confirm e io w u = (fst (return_confirm e io w u), Inr return_done)"
      by (rule split_result)
    from return_confirm_ledger [OF run assms] obtain stock stock' where
      l: "load_stock e w = Inr stock" "load_stock e (fst (return_confirm e io w u)) = Inr stock'"
      and m: "\<And>k. map_of stock' k =
                (case map_of ?E k of None \<Rightarrow> map_of stock k | Some q \<Rightarrow> Some (dict_get stock k 0 + q))"
      by blast
    have "map_of stock' item = Some (dict_get stock item 0 + qty)"
      if "(item, qty) \<in> set ?E" for item qty
      using m [of item] inE [OF that] by simp
    moreover have "map_of stock' item = map_of stock item" if "item \<notin> fst ` set ?E" for item
      using m [of item] outE [OF that] by simp
    ultimately show "\<exists>stock stock'.
                load_stock e w = Inr stock
              \<and> load_stock e (fst (return_confirm e io w u)) = Inr stock'
              \<and> (\<forall>(item, qty) \<in> set ?E.
                    map_of stock' item = Some (dict_get stock item 0 + qty))
              \<and> (\<forall>item. item \<notin> fst ` set ?E \<longrightarrow> map_of stock' item = map_of stock item)"
      using l by blast
  }
qed

theorem commit_ledger_effect_witness:
  "distinct (map fst (STOCK ex_env))
   \<and> distinct (map fst (basket_of (ex_world [(''Mic'', 1)] None Order) (user_id ex_user)))
   \<and> snd (order_confirm ex_env ex_io (ex_world [(''Mic'', 1)] None Order) ex_user) = Inr order_done
   \<and> snd (return_confirm ex_env ex_io (ex_world [(''Mic'', 1)] None Order) ex_user) = Inr return_done
   \<and> load_stock ex_env (ex_world [(''Mic'', 1)] None Order) = Inr [(''Mic'', 2), (''Cable'', 5)]
   \<and> load_stock ex_env (fst (order_confirm ex_env ex_io (ex_world [(''Mic'', 1)] None Order) ex_user))
        = Inr [(''Mic'', 1), (''Cable'', 5)]
   \<and> load_stock ex_env (fst (return_confirm ex_env ex_io (ex_world [(''Mic'', 1)] None Order) ex_user))
        = Inr [(''Mic'', 3), (''Cable'', 5)]
   \<and> (\<exists>stock stock'.
          load_stock ex_env (ex_world [(''Mic'', 1)] None Order) = Inr stock
        \<and> load_stock ex_env (fst (order_confirm ex_env ex_io (ex_world [(''Mic'', 1)] None Order) ex_user))
             = Inr stock'
        \<and> (\<forall>(item, qty) \<in> set (effective (basket_of (ex_world [(''Mic'', 1)] None Order) (user_id ex_user))).
              \<exists>had. map_of stock item = Some had \<and> map_of stock' item = Some (had - qty))
        \<and> (\<forall>item. item \<notin> fst ` set (effective (basket_of (ex_world [(''Mic'', 1)] None Order) (user_id ex_user)))
              \<longrightarrow> map_of stock' item = map_of stock item))
   \<and> (\<exists>stock stock'.
          load_stock ex_env (ex_world [(''Mic'', 1)] None Order) = Inr stock
        \<and> load_stock ex_env (fst (return_confirm ex_env ex_io (ex_world [(''Mic'', 1)] None Order) ex_user))
             = Inr stock'
        \<and> (\<forall>(item, qty) \<in> set (effective (basket_of (ex_world [(''Mic'', 1)] None Order) (user_id ex_user))).
              map_of stock' item = Some (dict_get stock item 0 + qty))
        \<and> (\<forall>item. item \<notin> fst ` set (effective (basket_of (ex_world [(''Mic'', 1)] None Order) (user_id ex_user)))
              \<longrightarrow> map_of stock' item = map_of stock item))"
proof -
  have h1: "distinct (map fst (STOCK ex_env))"
    by (simp add: ex_env_def)
  have h2: "distinct (map fst (basket_of (ex_world [(''Mic'', 1)] None Order) (user_id ex_user)))"
    by (simp add: ex_basket)
  have a1: "snd (order_confirm ex_env ex_io (ex_world [(''Mic'', 1)] None Order) ex_user) = Inr order_done"
    by (simp add: ex_order_commit)
  have a2: "snd (return_confirm ex_env ex_io (ex_world [(''Mic'', 1)] None Order) ex_user) = Inr return_done"
    by (simp add: ex_return_commit)
  have l0: "load_stock ex_env (ex_world [(''Mic'', 1)] None Order) = Inr [(''Mic'', 2), (''Cable'', 5)]"
    by (simp add: load_stock_def ex_env_def ex_world_def)
  have l1: "load_stock ex_env (fst (order_confirm ex_env ex_io (ex_world [(''Mic'', 1)] None Order) ex_user))
        = Inr [(''Mic'', 1), (''Cable'', 5)]"
    by (simp add: ex_order_commit ex_load)
  have l2: "load_stock ex_env (fst (return_confirm ex_env ex_io (ex_world [(''Mic'', 1)] None Order) ex_user))
        = Inr [(''Mic'', 3), (''Cable'', 5)]"
    by (simp add: ex_return_commit ex_load)
  show ?thesis
    using h1 h2 a1 a2 l0 l1 l2 commit_ledger_effect [OF h1 h2, of ex_io] by blast
qed

text \<open>
  Claim C3. When no quantity of the ledger is negative before a commit, none is after a
  successful commit, in an order and in a return.
\<close>

theorem ledger_stays_nonnegative:
  assumes "distinct (map fst (STOCK e))"
    and "distinct (map fst (basket_of w (user_id u)))"
    and ld: "load_stock e w = Inr stock"
    and nn: "\<forall>(item, qty) \<in> set stock. 0 \<le> qty"
  shows "(snd (order_confirm e io w u) = Inr order_done \<longrightarrow>
            (\<exists>stock'. load_stock e (fst (order_confirm e io w u)) = Inr stock'
                     \<and> (\<forall>(item, qty) \<in> set stock'. 0 \<le> qty)))
       \<and> (snd (return_confirm e io w u) = Inr return_done \<longrightarrow>
            (\<exists>stock'. load_stock e (fst (return_confirm e io w u)) = Inr stock'
                     \<and> (\<forall>(item, qty) \<in> set stock'. 0 \<le> qty)))"
proof (intro conjI impI)
  let ?E = "effective (basket_of w (user_id u))"
  have get0: "0 \<le> dict_get stock k 0" for k
  proof (cases "map_of stock k")
    case None
    then show ?thesis by (simp add: dict_get_def)
  next
    case (Some h)
    then have "(k, h) \<in> set stock" by (rule map_of_SomeD)
    with nn have "0 \<le> h" by auto
    with Some show ?thesis by (simp add: dict_get_def)
  qed
  {
    assume "snd (order_confirm e io w u) = Inr order_done"
    then have run: "order_confirm e io w u = (fst (order_confirm e io w u), Inr order_done)"
      by (rule split_result)
    from order_confirm_ledger [OF run assms(1,2)] ld obtain stock' where
      l: "load_stock e (fst (order_confirm e io w u)) = Inr stock'"
      and d: "distinct (map fst stock')"
      and fs: "first_short stock ?E = None"
      and m: "\<And>k. map_of stock' k =
                (case map_of ?E k of None \<Rightarrow> map_of stock k | Some q \<Rightarrow> Some (dict_get stock k 0 - q))"
      by auto
    have "0 \<le> v" if "(k, v) \<in> set stock'" for k v
    proof -
      from that d have mv: "map_of stock' k = Some v" by simp
      show ?thesis
      proof (cases "map_of ?E k")
        case None
        with mv m [of k] have "map_of stock k = Some v" by simp
        then have "(k, v) \<in> set stock" by (rule map_of_SomeD)
        with nn show ?thesis by auto
      next
        case (Some q)
        then have "(k, q) \<in> set ?E" by (rule map_of_SomeD)
        with fs have "q \<le> dict_get stock k 0"
          by (fastforce simp: first_short_None)
        moreover from Some mv m [of k] have "v = dict_get stock k 0 - q" by simp
        ultimately show ?thesis by simp
      qed
    qed
    then show "\<exists>stock'. load_stock e (fst (order_confirm e io w u)) = Inr stock'
                     \<and> (\<forall>(item, qty) \<in> set stock'. 0 \<le> qty)"
      using l by auto
  }
  {
    assume "snd (return_confirm e io w u) = Inr return_done"
    then have run: "return_confirm e io w u = (fst (return_confirm e io w u), Inr return_done)"
      by (rule split_result)
    from return_confirm_ledger [OF run assms(1,2)] ld obtain stock' where
      l: "load_stock e (fst (return_confirm e io w u)) = Inr stock'"
      and d: "distinct (map fst stock')"
      and m: "\<And>k. map_of stock' k =
                (case map_of ?E k of None \<Rightarrow> map_of stock k | Some q \<Rightarrow> Some (dict_get stock k 0 + q))"
      by auto
    have "0 \<le> v" if "(k, v) \<in> set stock'" for k v
    proof -
      from that d have mv: "map_of stock' k = Some v" by simp
      show ?thesis
      proof (cases "map_of ?E k")
        case None
        with mv m [of k] have "map_of stock k = Some v" by simp
        then have "(k, v) \<in> set stock" by (rule map_of_SomeD)
        with nn show ?thesis by auto
      next
        case (Some q)
        then have "(k, q) \<in> set ?E" by (rule map_of_SomeD)
        then have "0 < q" by (simp add: effective_entries)
        moreover from Some mv m [of k] have "v = dict_get stock k 0 + q" by simp
        ultimately show ?thesis using get0 [of k] by simp
      qed
    qed
    then show "\<exists>stock'. load_stock e (fst (return_confirm e io w u)) = Inr stock'
                     \<and> (\<forall>(item, qty) \<in> set stock'. 0 \<le> qty)"
      using l by auto
  }
qed

theorem ledger_stays_nonnegative_witness:
  "distinct (map fst (STOCK ex_env))
   \<and> distinct (map fst (basket_of (ex_world [(''Mic'', 2)] None Order) (user_id ex_user)))
   \<and> load_stock ex_env (ex_world [(''Mic'', 2)] None Order) = Inr [(''Mic'', 2), (''Cable'', 5)]
   \<and> list_all (\<lambda>(item, qty). 0 \<le> qty) [(''Mic'', 2::int), (''Cable'', 5)]
   \<and> snd (order_confirm ex_env ex_io (ex_world [(''Mic'', 2)] None Order) ex_user) = Inr order_done
   \<and> snd (return_confirm ex_env ex_io (ex_world [(''Mic'', 2)] None Order) ex_user) = Inr return_done
   \<and> (\<exists>stock'. load_stock ex_env (fst (order_confirm ex_env ex_io (ex_world [(''Mic'', 2)] None Order) ex_user))
                  = Inr stock'
               \<and> (\<forall>(item, qty) \<in> set stock'. 0 \<le> qty))
   \<and> (\<exists>stock'. load_stock ex_env (fst (return_confirm ex_env ex_io (ex_world [(''Mic'', 2)] None Order) ex_user))
                  = Inr stock'
               \<and> (\<forall>(item, qty) \<in> set stock'. 0 \<le> qty))"
proof -
  have h1: "distinct (map fst (STOCK ex_env))"
    by (simp add: ex_env_def)
  have h2: "distinct (map fst (basket_of (ex_world [(''Mic'', 2)] None Order) (user_id ex_user)))"
    by (simp add: ex_basket)
  have h3: "load_stock ex_env (ex_world [(''Mic'', 2)] None Order) = Inr [(''Mic'', 2), (''Cable'', 5)]"
    by (simp add: load_stock_def ex_env_def ex_world_def)
  have h4: "\<forall>(item, qty) \<in> set [(''Mic'', 2::int), (''Cable'', 5)]. 0 \<le> qty"
    by simp
  have a1: "snd (order_confirm ex_env ex_io (ex_world [(''Mic'', 2)] None Order) ex_user) = Inr order_done"
    by (simp add: order_confirm_def ensure_session_def ex_world_def ex_user_def ex_env_def ex_io_def
      effective_def load_stock_def dict_get_def save_stock_def write_json_def
      append_order_record_def log_records_def put_session_def)
  have a2: "snd (return_confirm ex_env ex_io (ex_world [(''Mic'', 2)] None Order) ex_user) = Inr return_done"
    by (simp add: return_confirm_def ensure_session_def ex_world_def ex_user_def ex_env_def ex_io_def
      effective_def load_stock_def dict_get_def save_stock_def write_json_def
      append_order_record_def log_records_def put_session_def)
  have h4': "list_all (\<lambda>(item, qty). 0 \<le> qty) [(''Mic'', 2::int), (''Cable'', 5)]"
    by simp
  show ?thesis
    using h1 h2 h3 h4' a1 a2 ledger_stays_nonnegative [OF h1 h2 h3 h4, of ex_io] by blast
qed

lemma order_confirm_short_alert:
  assumes run: "order_confirm e io w u = (w', r)"
    and ld: "load_stock e w = Inr stock"
    and fs: "first_short stock (effective (basket_of w (user_id u))) \<noteq> None"
  shows "r \<noteq> Inr order_done"
proof -
  obtain w1 s where es: "ensure_session w (user_id u) = (w1, s)"
    by (cases "ensure_session w (user_id u)")
  have b: "basket_of w (user_id u) = basket s"
    using basket_of_ensure(1) [OF es] .
  have ld1: "load_stock e w1 = Inr stock"
    using ld ensure_session_files [OF es] by (simp add: load_stock_def)
  from es run show ?thesis
    by (cases rule: order_confirm_cases) (use fs b ld1 in auto)
qed

text \<open>
  Claim C9. A confirm handler clears the basket and the date of the session when the
  commit is done, and only then: whenever it ends otherwise (the alert of an empty basket,
  the alert of a short item, an exception while the ledger is read, saved or logged) both
  are as they were. An empty effective basket is answered with its alert. When the write
  of the ledger file fails, the commit is not done and the log file is as it was.
\<close>

theorem session_cleared_only_on_commit:
  "(order_confirm e io w u = (w', r) \<longrightarrow>
       (r = Inr order_done \<longrightarrow> basket_of w' (user_id u) = [] \<and> date_of w' (user_id u) = None)
     \<and> (r \<noteq> Inr order_done \<longrightarrow> basket_of w' (user_id u) = basket_of w (user_id u)
                                \<and> date_of w' (user_id u) = date_of w (user_id u))
     \<and> (effective (basket_of w (user_id u)) = [] \<longrightarrow> r = Inr [Alert txt_order_empty])
     \<and> ((\<exists>stock. load_stock e w = Inr stock
                 \<and> first_short stock (effective (basket_of w (user_id u))) \<noteq> None)
          \<longrightarrow> r \<noteq> Inr order_done)
     \<and> (data_write io \<noteq> WriteOk \<longrightarrow> r \<noteq> Inr order_done \<and> orders_file w' = orders_file w))
   \<and> (return_confirm e io w u = (w', r) \<longrightarrow>
       (r = Inr return_done \<longrightarrow> basket_of w' (user_id u) = [] \<and> date_of w' (user_id u) = None)
     \<and> (r \<noteq> Inr return_done \<longrightarrow> basket_of w' (user_id u) = basket_of w (user_id u)
                                 \<and> date_of w' (user_id u) = date_of w (user_id u))
     \<and> (effective (basket_of w (user_id u)) = [] \<longrightarrow> r = Inr [Alert txt_return_empty])
     \<and> (data_write io \<noteq> WriteOk \<longrightarrow> r \<noteq> Inr return_done \<and> orders_file w' = orders_file w))"
proof (intro conjI impI)
  assume run: "order_confirm e io w u = (w', r)"
  note s = order_confirm_session [OF run]
  show "basket_of w' (user_id u) = []" if "r = Inr order_done" using s that by blast
  show "date_of w' (user_id u) = None" if "r = Inr order_done" using s that by blast
  show "basket_of w' (user_id u) = basket_of w (user_id u)" if "r \<noteq> Inr order_done"
    using s that by blast
  show "date_of w' (user_id u) = date_of w (user_id u)" if "r \<noteq> Inr order_done"
    using s that by blast
  show "r = Inr [Alert txt_order_empty]" if "effective (basket_of w (user_id u)) = []"
    using s that by blast
  show "r \<noteq> Inr order_done"
    if "\<exists>stock. load_stock e w = Inr stock
                 \<and> first_short stock (effective (basket_of w (user_id u))) \<noteq> None"
    using that order_confirm_short_alert [OF run] by blast
  show "r \<noteq> Inr order_done" if "data_write io \<noteq> WriteOk" using s that by blast
  show "orders_file w' = orders_file w" if "data_write io \<noteq> WriteOk" using s that by blast
next
  assume run: "return_confirm e io w u = (w', r)"
  note s = return_confirm_session [OF run]
  show "basket_of w' (user_id u) = []" if "r = Inr return_done" using s that by blast
  show "date_of w' (user_id u) = None" if "r = Inr return_done" using s that by blast
  show "basket_of w' (user_id u) = basket_of w (user_id u)" if "r \<noteq> Inr return_done"
    using s that by blast
  show "date_of w' (user_id u) = date_of w (user_id u)" if "r \<noteq> Inr return_done"
    using s that by blast
  show "r = Inr [Alert txt_return_empty]" if "effective (basket_of w (user_id u)) = []"
    using s that by blast
  show "r \<noteq> Inr return_done" if "data_write io \<noteq> WriteOk" using s that by blast
  show "orders_file w' = orders_file w" if "data_write io \<noteq> WriteOk" using s that by blast
qed

theorem session_cleared_only_on_commit_witness:
  "snd (order_confirm ex_env ex_io (ex_world [(''Mic'', 1)] (Some ''2024-05-20'') Order) ex_user)
     = Inr order_done
   \<and> basket_of (fst (order_confirm ex_env ex_io (ex_world [(''Mic'', 1)] (Some ''2024-05-20'') Order) ex_user))
        (user_id ex_user) = []
   \<and> date_of (fst (order_confirm ex_env ex_io (ex_world [(''Mic'', 1)] (Some ''2024-05-20'') Order) ex_user))
        (user_id ex_user) = None
   \<and> snd (return_confirm ex_env ex_io (ex_world [(''Mic'', 1)] (Some ''2024-05-20'') Order) ex_user)
     = Inr return_done
   \<and> basket_of (fst (return_confirm ex_env ex_io (ex_world [(''Mic'', 1)] (Some ''2024-05-20'') Order) ex_user))
        (user_id ex_user) = []
   \<and> date_of (fst (return_confirm ex_env ex_io (ex_world [(''Mic'', 1)] (Some ''2024-05-20'') Order) ex_user))
        (user_id ex_user) = None
   \<and> data_write (ex_io\<lparr>data_write := DumpFails\<rparr>) \<noteq> WriteOk
   \<and> snd (order_confirm ex_env (ex_io\<lparr>data_write := DumpFails\<rparr>)
            (ex_world [(''Mic'', 1)] (Some ''2024-05-20'') Order) ex_user) \<noteq> Inr order_done
   \<and> basket_of (fst (order_confirm ex_env (ex_io\<lparr>data_write := DumpFails\<rparr>)
            (ex_world [(''Mic'', 1)] (Some ''2024-05-20'') Order) ex_user)) (user_id ex_user)
        = [(''Mic'', 1)]
   \<and> date_of (fst (order_confirm ex_env (ex_io\<lparr>data_write := DumpFails\<rparr>)
            (ex_world [(''Mic'', 1)] (Some ''2024-05-20'') Order) ex_user)) (user_id ex_user)
        = Some ''2024-05-20''
   \<and> orders_file (fst (order_confirm ex_env (ex_io\<lparr>data_write := DumpFails\<rparr>)
            (ex_world [(''Mic'', 1)] (Some ''2024-05-20'') Order) ex_user)) = Missing
   \<and> snd (return_confirm ex_env (ex_io\<lparr>data_write := DumpFails\<rparr>)
            (ex_world [(''Mic'', 1)] (Some ''2024-05-20'') Order) ex_user) \<noteq> Inr return_done
   \<and> basket_of (fst (return_confirm ex_env (ex_io\<lparr>data_write := DumpFails\<rparr>)
            (ex_world [(''Mic'', 1)] (Some ''2024-05-20'') Order) ex_user)) (user_id ex_user)
        = [(''Mic'', 1)]
   \<and> orders_file (fst (return_confirm ex_env (ex_io\<lparr>data_write := DumpFails\<rparr>)
            (ex_world [(''Mic'', 1)] (Some ''2024-05-20'') Order) ex_user)) = Missing
   \<and> effective (basket_of (ex_world [(''Mic'', 0)] None Order) (user_id ex_user)) = []
   \<and> snd (order_confirm ex_env ex_io (ex_world [(''Mic'', 0)] None Order) ex_user)
        = Inr [Alert txt_order_empty]
   \<and> basket_of (fst (order_confirm ex_env ex_io (ex_world [(''Mic'', 0)] None Order) ex_user))
        (user_id ex_user) = [(''Mic'', 0)]
   \<and> snd (return_confirm ex_env ex_io (ex_world [(''Mic'', 0)] None Order) ex_user)
        = Inr [Alert txt_return_empty]
   \<and> first_short [(''Mic'', 2), (''Cable'', 5)]
        (effective (basket_of (ex_world [(''Mic'', 3)] None Order) (user_id ex_user))) \<noteq> None
   \<and> snd (order_confirm ex_env ex_io (ex_world [(''Mic'', 3)] None Order) ex_user) \<noteq> Inr order_done
   \<and> basket_of (fst (order_confirm ex_env ex_io (ex_world [(''Mic'', 3)] None Order) ex_user))
        (user_id ex_user) = [(''Mic'', 3)]"
proof -
  let ?W = "ex_world [(''Mic'', 1)] (Some ''2024-05-20'') Order"
  let ?F = "ex_io\<lparr>data_write := DumpFails\<rparr>"
  let ?Z = "ex_world [(''Mic'', 0)] None Order"
  let ?S = "ex_world [(''Mic'', 3)] None Order"
  have pair: "\<And>p. p = (fst p, snd p)" by simp
  have a1: "snd (order_confirm ex_env ex_io ?W ex_user) = Inr order_done"
    by (simp add: ex_order_commit)
  have a2: "snd (return_confirm ex_env ex_io ?W ex_user) = Inr return_done"
    by (simp add: ex_return_commit)
  have f: "data_write ?F \<noteq> WriteOk"
    by simp
  have z: "effective (basket_of ?Z (user_id ex_user)) = []"
    by (simp add: ex_basket effective_def)
  have l: "load_stock ex_env ?S = Inr [(''Mic'', 2), (''Cable'', 5)]"
    by (simp add: load_stock_def ex_env_def ex_world_def)
  have s: "first_short [(''Mic'', 2), (''Cable'', 5)] (effective (basket_of ?S (user_id ex_user))) \<noteq> None"
    by (simp add: ex_basket effective_def dict_get_def)
  note ord = session_cleared_only_on_commit [THEN conjunct1, rule_format]
  note ret = session_cleared_only_on_commit [THEN conjunct2, rule_format]
  have t1: "order_confirm ex_env ex_io ?W ex_user =
      (fst (order_confirm ex_env ex_io ?W ex_user), snd (order_confirm ex_env ex_io ?W ex_user))"
    by simp
  have t2: "return_confirm ex_env ex_io ?W ex_user =
      (fst (return_confirm ex_env ex_io ?W ex_user), snd (return_confirm ex_env ex_io ?W ex_user))"
    by simp
  have t3: "order_confirm ex_env ?F ?W ex_user =
      (fst (order_confirm ex_env ?F ?W ex_user), snd (order_confirm ex_env ?F ?W ex_user))"
    by simp
  have t4: "return_confirm ex_env ?F ?W ex_user =
      (fst (return_confirm ex_env ?F ?W ex_user), snd (return_confirm ex_env ?F ?W ex_user))"
    by simp
  have t5: "order_confirm ex_env ex_io ?Z ex_user =
      (fst (order_confirm ex_env ex_io ?Z ex_user), snd (order_confirm ex_env ex_io ?Z ex_user))"
    by simp
  have t6: "return_confirm ex_env ex_io ?Z ex_user =
      (fst (return_confirm ex_env ex_io ?Z ex_user), snd (return_confirm ex_env ex_io ?Z ex_user))"
    by simp
  have t7: "order_confirm ex_env ex_io ?S ex_user =
      (fst (order_confirm ex_env ex_io ?S ex_user), snd (order_confirm ex_env ex_io ?S ex_user))"
    by simp
  have om: "orders_file ?W = Missing"
    by (simp add: ex_world_def)
  have c1: "basket_of (fst (order_confirm ex_env ex_io ?W ex_user)) (user_id ex_user) = []
          \<and> date_of (fst (order_confirm ex_env ex_io ?W ex_user)) (user_id ex_user) = None"
    using ord [OF t1] a1 by blast
  have c2: "basket_of (fst (return_confirm ex_env ex_io ?W ex_user)) (user_id ex_user) = []
          \<and> date_of (fst (return_confirm ex_env ex_io ?W ex_user)) (user_id ex_user) = None"
    using ret [OF t2] a2 by blast
  have n3: "snd (order_confirm ex_env ?F ?W ex_user) \<noteq> Inr order_done
          \<and> orders_file (fst (order_confirm ex_env ?F ?W ex_user)) = orders_file ?W"
    using ord [OF t3] f by blast
  have b3: "basket_of (fst (order_confirm ex_env ?F ?W ex_user)) (user_id ex_user)
              = basket_of ?W (user_id ex_user)
          \<and> date_of (fst (order_confirm ex_env ?F ?W ex_user)) (user_id ex_user)
              = date_of ?W (user_id ex_user)"
    using ord [OF t3] n3 by blast
  have c3: "snd (order_confirm ex_env ?F ?W ex_user) \<noteq> Inr order_done
          \<and> basket_of (fst (order_confirm ex_env ?F ?W ex_user)) (user_id ex_user) = [(''Mic'', 1)]
          \<and> date_of (fst (order_confirm ex_env ?F ?W ex_user)) (user_id ex_user) = Some ''2024-05-20''
          \<and> orders_file (fst (order_confirm ex_env ?F ?W ex_user)) = Missing"
    using n3 b3 om by (simp add: ex_basket)
  have n4: "snd (return_confirm ex_env ?F ?W ex_user) \<noteq> Inr return_done
          \<and> orders_file (fst (return_confirm ex_env ?F ?W ex_user)) = orders_file ?W"
    using ret [OF t4] f by blast
  have b4: "basket_of (fst (return_confirm ex_env ?F ?W ex_user)) (user_id ex_user)
              = basket_of ?W (user_id ex_user)"
    using ret [OF t4] n4 by blast
  have c4: "snd (return_confirm ex_env ?F ?W ex_user) \<noteq> Inr return_done
          \<and> basket_of (fst (return_confirm ex_env ?F ?W ex_user)) (user_id ex_user) = [(''Mic'', 1)]
          \<and> orders_file (fst (return_confirm ex_env ?F ?W ex_user)) = Missing"
    using n4 b4 om by (simp add: ex_basket)
  have n5: "snd (order_confirm ex_env ex_io ?Z ex_user) = Inr [Alert txt_order_empty]"
    using ord [OF t5] z by blast
  then have "snd (order_confirm ex_env ex_io ?Z ex_user) \<noteq> Inr order_done"
    by simp
  then have "basket_of (fst (order_confirm ex_env ex_io ?Z ex_user)) (user_id ex_user)
      = basket_of ?Z (user_id ex_user)"
    using ord [OF t5] by blast
  with n5 have c5: "snd (order_confirm ex_env ex_io ?Z ex_user) = Inr [Alert txt_order_empty]
          \<and> basket_of (fst (order_confirm ex_env ex_io ?Z ex_user)) (user_id ex_user) = [(''Mic'', 0)]"
    by (simp add: ex_basket)
  have c6: "snd (return_confirm ex_env ex_io ?Z ex_user) = Inr [Alert txt_return_empty]"
    using ret [OF t6] z by blast
  have n7: "snd (order_confirm ex_env ex_io ?S ex_user) \<noteq> Inr order_done"
    using ord [OF t7] l s by blast
  then have "basket_of (fst (order_confirm ex_env ex_io ?S ex_user)) (user_id ex_user)
      = basket_of ?S (user_id ex_user)"
    using ord [OF t7] by blast
  with n7 have c7: "snd (order_confirm ex_env ex_io ?S ex_user) \<noteq> Inr order_done
          \<and> basket_of (fst (order_confirm ex_env ex_io ?S ex_user)) (user_id ex_user) = [(''Mic'', 3)]"
    by (simp add: ex_basket)
  show ?thesis
    using a1 a2 f z s c1 c2 c3 c4 c5 c6 c7 by simp
qed

section \<open>Properties of the basket\<close>

lemma basket_increment_nonneg:
  assumes "\<forall>(k, v) \<in> set b. 0 \<le> v"
  shows "\<forall>(k, v) \<in> set (basket_increment b item). 0 \<le> v"
proof -
  have get0: "0 \<le> dict_get b item 0"
  proof (cases "map_of b item")
    case None
    then show ?thesis by (simp add: dict_get_def)
  next
    case (Some h)
    then have "(item, h) \<in> set b" by (rule map_of_SomeD)
    with assms have "0 \<le> h" by auto
    with Some show ?thesis by (simp add: dict_get_def)
  qed
  have "0 \<le> v" if "(k, v) \<in> set (basket_increment b item)" for k v
  proof -
    from that have "(k, v) \<in> set b \<or> (k = item \<and> v = dict_get b item 0 + 1)"
      unfolding basket_increment_def by (rule update_entries)
    then show ?thesis using assms get0 by auto
  qed
  then show ?thesis by auto
qed

lemma basket_decrement_noop:
  "map_of b item = None \<or> map_of b item = Some 0 \<Longrightarrow> basket_decrement b item = Inr b"
  by (auto simp: basket_decrement_def dict_get_def)

lemma basket_decrement_result:
  "basket_decrement b item = Inr b
   \<or> (\<exists>v. map_of b item = Some v \<and> 0 < v \<and> basket_decrement b item = Inr (AList.update item (v - 1) b))"
  by (cases "map_of b item") (auto simp: basket_decrement_def dict_get_def)

lemma basket_decrement_nonneg:
  assumes "\<forall>(k, v) \<in> set b. 0 \<le> v"
  shows "\<exists>b'. basket_decrement b item = Inr b' \<and> (\<forall>(k, v) \<in> set b'. 0 \<le> v)"
proof -
  from basket_decrement_result [of b item] show ?thesis
  proof
    assume "basket_decrement b item = Inr b"
    with assms show ?thesis by simp
  next
    assume "\<exists>v. map_of b item = Some v \<and> 0 < v
                \<and> basket_decrement b item = Inr (AList.update item (v - 1) b)"
    then obtain v where v: "0 < v" "basket_decrement b item = Inr (AList.update item (v - 1) b)"
      by blast
    have "0 \<le> x" if "(k, x) \<in> set (AList.update item (v - 1) b)" for k x
    proof -
      from that have "(k, x) \<in> set b \<or> (k = item \<and> x = v - 1)"
        by (rule update_entries)
      then show ?thesis using assms v(1) by auto
    qed
    with v(2) show ?thesis by auto
  qed
qed

lemma fst_sum_case:
  "fst (case x of Inl err \<Rightarrow> (w, f err) | Inr y \<Rightarrow> (w, g y)) = w"
  by (cases x) simp_all

lemma add_tap_state:
  "fst (add_tap prefix title e w0 u data) =
     (case int_of_str e (rsplit_last data) of
        None \<Rightarrow> w0
      | Some idx \<Rightarrow>
          (case py_index (ITEMS e) idx of
             Inl err \<Rightarrow> fst (ensure_session w0 (user_id u))
           | Inr item \<Rightarrow>
               put_session (fst (ensure_session w0 (user_id u))) (user_id u)
                 (snd (ensure_session w0 (user_id u))
                    \<lparr>basket := basket_increment (basket_of w0 (user_id u)) item\<rparr>)))"
  by (cases "ensure_session w0 (user_id u)")
     (simp add: add_tap_def basket_of_def Let_def fst_sum_case split: option.splits sum.splits)

lemma remove_tap_state:
  "fst (remove_tap prefix title e w0 u data) =
     (case int_of_str e (rsplit_last data) of
        None \<Rightarrow> w0
      | Some idx \<Rightarrow>
          (case py_index (ITEMS e) idx of
             Inl err \<Rightarrow> fst (ensure_session w0 (user_id u))
           | Inr item \<Rightarrow>
               (case basket_decrement (basket_of w0 (user_id u)) item of
                  Inl err \<Rightarrow> fst (ensure_session w0 (user_id u))
                | Inr b \<Rightarrow>
                    put_session (fst (ensure_session w0 (user_id u))) (user_id u)
                      (snd (ensure_session w0 (user_id u))\<lparr>basket := b\<rparr>))))"
  by (cases "ensure_session w0 (user_id u)")
     (simp add: remove_tap_def basket_of_def Let_def fst_sum_case split: option.splits sum.splits)

lemma basket_of_ensured:
  "basket_of (fst (ensure_session w uid)) uid = basket_of w uid"
  by (cases "ensure_session w uid") (simp add: basket_of_ensure)

lemma basket_of_put_session:
  "basket_of (put_session w uid s) uid = basket s"
  by (simp add: put_session_def basket_of_put)

lemma add_tap_basket:
  "basket_of (fst (add_tap prefix title e w u data)) (user_id u) = basket_of w (user_id u)
   \<or> (\<exists>item. basket_of (fst (add_tap prefix title e w u data)) (user_id u)
               = basket_increment (basket_of w (user_id u)) item)"
  by (auto simp: add_tap_state basket_of_ensured basket_of_put_session
      split: option.splits sum.splits)

lemma remove_tap_basket:
  "basket_of (fst (remove_tap prefix title e w u data)) (user_id u) = basket_of w (user_id u)
   \<or> (\<exists>item. basket_decrement (basket_of w (user_id u)) item
               = Inr (basket_of (fst (remove_tap prefix title e w u data)) (user_id u)))"
  by (auto simp: remove_tap_state basket_of_ensured basket_of_put_session
      split: option.splits sum.splits)

lemma tap_step_nonneg:
  assumes "\<forall>(k, v) \<in> set (basket_of w (user_id u)). 0 \<le> v"
  shows "\<forall>(k, v) \<in> set (basket_of (tap_step e u w t) (user_id u)). 0 \<le> v"
proof -
  have add: "\<forall>(k, v) \<in> set (basket_of (fst (add_tap prefix title e w u data)) (user_id u)). 0 \<le> v"
    for prefix title data
  proof -
    from add_tap_basket [of prefix title e w u data] show ?thesis
    proof
      assume "basket_of (fst (add_tap prefix title e w u data)) (user_id u) = basket_of w (user_id u)"
      with assms show ?thesis by simp
    next
      assume "\<exists>item. basket_of (fst (add_tap prefix title e w u data)) (user_id u)
               = basket_increment (basket_of w (user_id u)) item"
      then obtain item where "basket_of (fst (add_tap prefix title e w u data)) (user_id u)
               = basket_increment (basket_of w (user_id u)) item"
        by blast
      with basket_increment_nonneg [OF assms, of item] show ?thesis by simp
    qed
  qed
  have rem: "\<forall>(k, v) \<in> set (basket_of (fst (remove_tap prefix title e w u data)) (user_id u)). 0 \<le> v"
    for prefix title data
  proof -
    from remove_tap_basket [of prefix title e w u data] show ?thesis
    proof
      assume "basket_of (fst (remove_tap prefix title e w u data)) (user_id u) = basket_of w (user_id u)"
      with assms show ?thesis by simp
    next
      assume "\<exists>item. basket_decrement (basket_of w (user_id u)) item
               = Inr (basket_of (fst (remove_tap prefix title e w u data)) (user_id u))"
      then obtain item where "basket_decrement (basket_of w (user_id u)) item
               = Inr (basket_of (fst (remove_tap prefix title e w u data)) (user_id u))"
        by blast
      with basket_decrement_nonneg [OF assms, of item] show ?thesis by simp
    qed
  qed
  show ?thesis
    by (cases t) (simp_all add: order_add_def order_remove_def return_add_def return_remove_def add rem)
qed

lemma run_taps_nonneg:
  assumes "\<forall>(k, v) \<in> set (basket_of w (user_id u)). 0 \<le> v"
  shows "\<forall>(k, v) \<in> set (basket_of (run_taps e u w taps) (user_id u)). 0 \<le> v"
  using assms
proof (induction taps arbitrary: w)
  case Nil
  then show ?case by (simp add: run_taps_def)
next
  case (Cons t taps)
  from Cons.IH [OF tap_step_nonneg [OF Cons.prems, of e t]] show ?case
    by (simp add: run_taps_def)
qed

lemma remove_tap_noop:
  assumes "int_of_str e (rsplit_last data) = Some idx"
    and "py_index (ITEMS e) idx = Inr item"
    and "map_of (basket_of w (user_id u)) item = None \<or> map_of (basket_of w (user_id u)) item = Some 0"
  shows "basket_of (fst (remove_tap prefix title e w u data)) (user_id u) = basket_of w (user_id u)"
  using assms(1,2) basket_decrement_noop [OF assms(3)]
  by (simp add: remove_tap_state basket_of_put_session)

text \<open>
  Claim C5. From a fresh basket, after any sequence of taps on the add and remove buttons
  of the order and return pickers, every count of the basket is at least zero. Removing an
  item whose count is absent or zero leaves the basket as it is, in the two lines of the
  source and in both remove handlers, and removing never makes a count negative.
\<close>

theorem basket_clamping:
  assumes "basket_of w (user_id u) = []"
  shows "(\<forall>(item, qty) \<in> set (basket_of (run_taps e u w taps) (user_id u)). 0 \<le> qty)
       \<and> ((map_of b item = None \<or> map_of b item = Some 0) \<longrightarrow> basket_decrement b item = Inr b)
       \<and> ((\<forall>(k, v) \<in> set b. 0 \<le> v) \<longrightarrow>
            (\<exists>b'. basket_decrement b item = Inr b' \<and> (\<forall>(k, v) \<in> set b'. 0 \<le> v)))
       \<and> (int_of_str e (rsplit_last data) = Some idx \<and> py_index (ITEMS e) idx = Inr name
            \<and> (map_of (basket_of w0 (user_id u)) name = None
                \<or> map_of (basket_of w0 (user_id u)) name = Some 0) \<longrightarrow>
              basket_of (fst (order_remove e w0 u data)) (user_id u) = basket_of w0 (user_id u)
            \<and> basket_of (fst (return_remove e w0 u data)) (user_id u) = basket_of w0 (user_id u))"
proof (intro conjI impI)
  have "\<forall>(k, v) \<in> set (basket_of w (user_id u)). 0 \<le> v"
    using assms by simp
  then show "\<forall>(item, qty) \<in> set (basket_of (run_taps e u w taps) (user_id u)). 0 \<le> qty"
    by (rule run_taps_nonneg)
next
  assume "map_of b item = None \<or> map_of b item = Some 0"
  then show "basket_decrement b item = Inr b"
    by (rule basket_decrement_noop)
next
  assume "\<forall>(k, v) \<in> set b. 0 \<le> v"
  then show "\<exists>b'. basket_decrement b item = Inr b' \<and> (\<forall>(k, v) \<in> set b'. 0 \<le> v)"
    by (rule basket_decrement_nonneg)
next
  assume a: "int_of_str e (rsplit_last data) = Some idx \<and> py_index (ITEMS e) idx = Inr name
            \<and> (map_of (basket_of w0 (user_id u)) name = None
                \<or> map_of (basket_of w0 (user_id u)) name = Some 0)"
  then show "basket_of (fst (order_remove e w0 u data)) (user_id u) = basket_of w0 (user_id u)"
    using remove_tap_noop [of e data idx name w0 u] by (simp add: order_remove_def)
  from a show "basket_of (fst (return_remove e w0 u data)) (user_id u) = basket_of w0 (user_id u)"
    using remove_tap_noop [of e data idx name w0 u] by (simp add: return_remove_def)
qed

lemma ex_parse:
  "int_of_str ex_env (rsplit_last ''order_add_0'') = Some 0"
  "int_of_str ex_env (rsplit_last ''order_remove_0'') = Some 0"
  "int_of_str ex_env (rsplit_last ''order_remove_1'') = Some 1"
  "int_of_str ex_env (rsplit_last ''return_add_1'') = Some 1"
  "int_of_str ex_env (rsplit_last ''return_remove_1'') = Some 1"
  by (simp_all add: ex_env_def rsplit_last_def dec_int_def dec_nat_def is_digit_def)

lemma ex_items:
  "py_index (ITEMS ex_env) 0 = Inr ''Mic''"
  "py_index (ITEMS ex_env) 1 = Inr ''Cable''"
  by (simp_all add: ex_env_def py_index_def)

lemma ex_taps:
  "basket_of (run_taps ex_env ex_user (ex_world [] None Order)
       [OrderAdd ''order_add_0'', OrderAdd ''order_add_0'', OrderRemove ''order_remove_0'',
        ReturnRemove ''return_remove_1'']) (user_id ex_user)
     = [(''Mic'', 1)]"
  by (simp add: run_taps_def order_add_def order_remove_def return_remove_def
      add_tap_state remove_tap_state ex_parse ex_items basket_of_def ensure_session_def
      put_session_def ex_world_def ex_user_def basket_increment_def basket_decrement_def
      dict_get_def)

theorem basket_clamping_witness:
  "basket_of (ex_world [] None Order) (user_id ex_user) = []
   \<and> basket_of (run_taps ex_env ex_user (ex_world [] None Order)
       [OrderAdd ''order_add_0'', OrderAdd ''order_add_0'', OrderRemove ''order_remove_0'',
        ReturnRemove ''return_remove_1'']) (user_id ex_user) = [(''Mic'', 1)]
   \<and> list_all (\<lambda>(item, qty). 0 \<le> qty)
        (basket_of (run_taps ex_env ex_user (ex_world [] None Order)
           [OrderAdd ''order_add_0'', OrderAdd ''order_add_0'', OrderRemove ''order_remove_0'',
            ReturnRemove ''return_remove_1'']) (user_id ex_user))
   \<and> map_of [(''Mic'', 0::int)] ''Mic'' = Some 0
   \<and> basket_decrement [(''Mic'', 0)] ''Mic'' = Inr [(''Mic'', 0)]
   \<and> list_all (\<lambda>(k, v). 0 \<le> v) [(''Mic'', 0::int)]
   \<and> (\<exists>b'. basket_decrement [(''Mic'', 0)] ''Mic'' = Inr b' \<and> list_all (\<lambda>(k, v). 0 \<le> v) b')
   \<and> int_of_str ex_env (rsplit_last ''order_remove_1'') = Some 1
   \<and> py_index (ITEMS ex_env) 1 = Inr ''Cable''
   \<and> map_of (basket_of (ex_world [(''Mic'', 1)] None Order) (user_id ex_user)) ''Cable'' = None
   \<and> basket_of (fst (order_remove ex_env (ex_world [(''Mic'', 1)] None Order) ex_user ''order_remove_1''))
        (user_id ex_user) = [(''Mic'', 1)]
   \<and> basket_of (fst (return_remove ex_env (ex_world [(''Mic'', 1)] None Order) ex_user ''order_remove_1''))
        (user_id ex_user) = [(''Mic'', 1)]"
proof -
  have h: "basket_of (ex_world [] None Order) (user_id ex_user) = []"
    by (simp add: ex_basket)
  have m: "map_of [(''Mic'', 0::int)] ''Mic'' = Some 0"
    by simp
  have n: "\<forall>(k, v) \<in> set [(''Mic'', 0::int)]. 0 \<le> v"
    by simp
  have c: "map_of (basket_of (ex_world [(''Mic'', 1)] None Order) (user_id ex_user)) ''Cable'' = None"
    by (simp add: ex_basket)
  note t = basket_clamping [OF h, of ex_env
      "[OrderAdd ''order_add_0'', OrderAdd ''order_add_0'', OrderRemove ''order_remove_0'',
        ReturnRemove ''return_remove_1'']"
      "[(''Mic'', 0)]" "''Mic''" "''order_remove_1''" 1 "''Cable''"
      "ex_world [(''Mic'', 1)] None Order"]
  have t1: "list_all (\<lambda>(item, qty). 0 \<le> qty)
        (basket_of (run_taps ex_env ex_user (ex_world [] None Order)
           [OrderAdd ''order_add_0'', OrderAdd ''order_add_0'', OrderRemove ''order_remove_0'',
            ReturnRemove ''return_remove_1'']) (user_id ex_user))"
    using t by (simp only: list_all_iff, blast?)
  have t2: "basket_decrement [(''Mic'', 0)] ''Mic'' = Inr [(''Mic'', 0)]"
    using t m by blast
  have t3: "\<exists>b'. basket_decrement [(''Mic'', 0)] ''Mic'' = Inr b' \<and> list_all (\<lambda>(k, v). 0 \<le> v) b'"
    using t n by (simp only: list_all_iff, blast?)
  have t4: "basket_of (fst (order_remove ex_env (ex_world [(''Mic'', 1)] None Order) ex_user ''order_remove_1''))
        (user_id ex_user) = basket_of (ex_world [(''Mic'', 1)] None Order) (user_id ex_user)
      \<and> basket_of (fst (return_remove ex_env (ex_world [(''Mic'', 1)] None Order) ex_user ''order_remove_1''))
        (user_id ex_user) = basket_of (ex_world [(''Mic'', 1)] None Order) (user_id ex_user)"
    using t c ex_parse(3) ex_items(2) by blast
  show ?thesis
    using h ex_taps t1 m t2 t3 ex_parse(3) ex_items(2) c t4 by (simp add: ex_basket)
qed

section \<open>Properties of the item picker\<close>

lemma paginate_first_page:
  "0 \<le> n \<Longrightarrow> paginate n 10 0 = Inr (0, min n 10, max 1 ((n + 9) div 10))"
  by (simp add: paginate_def Let_def)

lemma item_rows_total:
  assumes "\<forall>i \<in> set idxs. 0 \<le> i \<and> i < int (length (ITEMS e))"
  shows "\<exists>rows. item_rows e prefix idxs = Inr rows"
  using assms
proof (induction idxs)
  case Nil
  then show ?case by simp
next
  case (Cons i idxs)
  then obtain rows where "item_rows e prefix idxs = Inr rows"
    by auto
  moreover from Cons.prems have "py_index (ITEMS e) i = Inr (ITEMS e ! nat i)"
    by (simp add: py_index_def)
  ultimately show ?case by simp
qed

lemma str_int_1: "str_int 1 = ''1''"
  by code_simp

lemma items_keyboard_first_page:
  "\<exists>rows. item_rows e prefix [0..min (int (length (ITEMS e))) 10 - 1] = Inr rows
     \<and> items_keyboard e prefix 0 =
         Inr (rows
              @ (if 10 < length (ITEMS e)
                 then [[Button txt_right (prefix @ ''_items_page_1'')]] else [])
              @ [[Button txt_back (prefix @ ''_items_back'')]])"
proof -
  let ?n = "int (length (ITEMS e))"
  have "\<forall>i \<in> set [0..min ?n 10 - 1]. 0 \<le> i \<and> i < ?n"
    by auto
  from item_rows_total [OF this, of prefix] obtain rows where
    rows: "item_rows e prefix [0..min ?n 10 - 1] = Inr rows"
    by blast
  have pages: "(0 < max 1 ((?n + 9) div 10) - 1) = (10 < length (ITEMS e))"
    by auto
  have "items_keyboard e prefix 0 =
         Inr (rows
              @ (if 10 < length (ITEMS e)
                 then [[Button txt_right (prefix @ ''_items_page_1'')]] else [])
              @ [[Button txt_back (prefix @ ''_items_back'')]])"
    using rows pages
    by (simp add: items_keyboard_def paginate_first_page str_int_1 del: upto.simps)
  with rows show ?thesis by blast
qed

lemma basket_decrement_total: "\<exists>b'. basket_decrement b item = Inr b'"
  using basket_decrement_result [of b item] by blast

lemma add_tap_reply:
  assumes "snd (add_tap prefix title e w u data) = Inr acts"
  shows "\<exists>kb. items_keyboard e prefix 0 = Inr kb
            \<and> acts = [EditText (render_basket_text
                                   (basket_of (fst (add_tap prefix title e w u data)) (user_id u))
                                   title) (Inline kb),
                       AnswerCallback]"
proof -
  obtain w1 s where es: "ensure_session w (user_id u) = (w1, s)"
    by (cases "ensure_session w (user_id u)")
  obtain kb where kb: "items_keyboard e prefix 0 = Inr kb"
    using items_keyboard_first_page [of e prefix] by blast
  from assms es kb show ?thesis
    by (auto simp: add_tap_def Let_def basket_of_put_session split: option.splits sum.splits)
qed

lemma remove_tap_reply:
  assumes "snd (remove_tap prefix title e w u data) = Inr acts"
  shows "\<exists>kb. items_keyboard e prefix 0 = Inr kb
            \<and> acts = [EditText (render_basket_text
                                   (basket_of (fst (remove_tap prefix title e w u data)) (user_id u))
                                   title) (Inline kb),
                       AnswerCallback]"
proof -
  obtain w1 s where es: "ensure_session w (user_id u) = (w1, s)"
    by (cases "ensure_session w (user_id u)")
  obtain kb where kb: "items_keyboard e prefix 0 = Inr kb"
    using items_keyboard_first_page [of e prefix] by blast
  from assms es kb show ?thesis
    by (auto simp: remove_tap_def Let_def basket_of_put_session split: option.splits sum.splits)
qed

lemma add_tap_total:
  assumes "int_of_str e (rsplit_last data) = Some idx" and "py_index (ITEMS e) idx = Inr item"
  shows "\<exists>acts. snd (add_tap prefix title e w u data) = Inr acts"
proof -
  obtain w1 s where es: "ensure_session w (user_id u) = (w1, s)"
    by (cases "ensure_session w (user_id u)")
  obtain kb where kb: "items_keyboard e prefix 0 = Inr kb"
    using items_keyboard_first_page [of e prefix] by blast
  from assms es kb show ?thesis
    by (simp add: add_tap_def Let_def)
qed

lemma remove_tap_total:
  assumes "int_of_str e (rsplit_last data) = Some idx" and "py_index (ITEMS e) idx = Inr item"
  shows "\<exists>acts. snd (remove_tap prefix title e w u data) = Inr acts"
proof -
  obtain w1 s where es: "ensure_session w (user_id u) = (w1, s)"
    by (cases "ensure_session w (user_id u)")
  obtain kb where kb: "items_keyboard e prefix 0 = Inr kb"
    using items_keyboard_first_page [of e prefix] by blast
  obtain b' where b': "basket_decrement (basket s) item = Inr b'"
    using basket_decrement_total by blast
  from assms es kb b' show ?thesis
    by (simp add: remove_tap_def Let_def)
qed

text \<open>
  Claim C10. The reply of each of the four add and remove handlers is the basket text
  with the keyboard \<open>items_keyboard prefix 0\<close>, whatever the callback data and the state:
  the rows of the first ten items of the catalog, the forward arrow when the catalog has
  more than ten items, and the back button. A tap on an item of the catalog is always
  answered so.
\<close>

theorem picker_rerendered_at_first_page:
  "(\<exists>rows. item_rows e prefix [0..min (int (length (ITEMS e))) 10 - 1] = Inr rows
      \<and> items_keyboard e prefix 0 =
          Inr (rows
               @ (if 10 < length (ITEMS e)
                  then [[Button txt_right (prefix @ ''_items_page_1'')]] else [])
               @ [[Button txt_back (prefix @ ''_items_back'')]]))
   \<and> (snd (order_add e w u data) = Inr acts \<longrightarrow>
        (\<exists>kb. items_keyboard e ''order'' 0 = Inr kb
            \<and> acts = [EditText (render_basket_text
                                   (basket_of (fst (order_add e w u data)) (user_id u))
                                   txt_current_order) (Inline kb),
                       AnswerCallback]))
   \<and> (snd (order_remove e w u data) = Inr acts \<longrightarrow>
        (\<exists>kb. items_keyboard e ''order'' 0 = Inr kb
            \<and> acts = [EditText (render_basket_text
                                   (basket_of (fst (order_remove e w u data)) (user_id u))
                                   txt_current_order) (Inline kb),
                       AnswerCallback]))
   \<and> (snd (return_add e w u data) = Inr acts \<longrightarrow>
        (\<exists>kb. items_keyboard e ''return'' 0 = Inr kb
            \<and> acts = [EditText (render_basket_text
                                   (basket_of (fst (return_add e w u data)) (user_id u))
                                   txt_to_return) (Inline kb),
                       AnswerCallback]))
   \<and> (snd (return_remove e w u data) = Inr acts \<longrightarrow>
        (\<exists>kb. items_keyboard e ''return'' 0 = Inr kb
            \<and> acts = [EditText (render_basket_text
                                   (basket_of (fst (return_remove e w u data)) (user_id u))
                                   txt_to_return) (Inline kb),
                       AnswerCallback]))
   \<and> (int_of_str e (rsplit_last data) = Some idx \<and> py_index (ITEMS e) idx = Inr item \<longrightarrow>
        (\<exists>a1 a2 a3 a4.
            snd (order_add e w u data) = Inr a1 \<and> snd (order_remove e w u data) = Inr a2
          \<and> snd (return_add e w u data) = Inr a3 \<and> snd (return_remove e w u data) = Inr a4))"
proof (intro conjI impI)
  show "\<exists>rows. item_rows e prefix [0..min (int (length (ITEMS e))) 10 - 1] = Inr rows
      \<and> items_keyboard e prefix 0 =
          Inr (rows
               @ (if 10 < length (ITEMS e)
                  then [[Button txt_right (prefix @ ''_items_page_1'')]] else [])
               @ [[Button txt_back (prefix @ ''_items_back'')]])"
    by (rule items_keyboard_first_page)
next
  assume "snd (order_add e w u data) = Inr acts"
  then show "\<exists>kb. items_keyboard e ''order'' 0 = Inr kb
            \<and> acts = [EditText (render_basket_text
                                   (basket_of (fst (order_add e w u data)) (user_id u))
                                   txt_current_order) (Inline kb),
                       AnswerCallback]"
    unfolding order_add_def by (rule add_tap_reply)
next
  assume "snd (order_remove e w u data) = Inr acts"
  then show "\<exists>kb. items_keyboard e ''order'' 0 = Inr kb
            \<and> acts = [EditText (render_basket_text
                                   (basket_of (fst (order_remove e w u data)) (user_id u))
                                   txt_current_order) (Inline kb),
                       AnswerCallback]"
    unfolding order_remove_def by (rule remove_tap_reply)
next
  assume "snd (return_add e w u data) = Inr acts"
  then show "\<exists>kb. items_keyboard e ''return'' 0 = Inr kb
            \<and> acts = [EditText (render_basket_text
                                   (basket_of (fst (return_add e w u data)) (user_id u))
                                   txt_to_return) (Inline kb),
                       AnswerCallback]"
    unfolding return_add_def by (rule add_tap_reply)
next
  assume "snd (return_remove e w u data) = Inr acts"
  then show "\<exists>kb. items_keyboard e ''return'' 0 = Inr kb
            \<and> acts = [EditText (render_basket_text
                                   (basket_of (fst (return_remove e w u data)) (user_id u))
                                   txt_to_return) (Inline kb),
                       AnswerCallback]"
    unfolding return_remove_def by (rule remove_tap_reply)
next
  assume a: "int_of_str e (rsplit_last data) = Some idx \<and> py_index (ITEMS e) idx = Inr item"
  then have p: "int_of_str e (rsplit_last data) = Some idx" and i: "py_index (ITEMS e) idx = Inr item"
    by simp_all
  from add_tap_total [OF p i, of "''order''" txt_current_order w u]
    remove_tap_total [OF p i, of "''order''" txt_current_order w u]
    add_tap_total [OF p i, of "''return''" txt_to_return w u]
    remove_tap_total [OF p i, of "''return''" txt_to_return w u]
  show "\<exists>a1 a2 a3 a4.
            snd (order_add e w u data) = Inr a1 \<and> snd (order_remove e w u data) = Inr a2
          \<and> snd (return_add e w u data) = Inr a3 \<and> snd (return_remove e w u data) = Inr a4"
    unfolding order_add_def order_remove_def return_add_def return_remove_def by blast
qed

lemma ex11_keyboard_order:
  "items_keyboard ex_env11 ''order'' 0 = Inr
       [[Button (txt_plus @ ''Mic'') ''order_add_0'', Button (txt_minus @ ''Mic'') ''order_remove_0''],
        [Button (txt_plus @ ''Cable'') ''order_add_1'', Button (txt_minus @ ''Cable'') ''order_remove_1''],
        [Button (txt_plus @ ''Stand'') ''order_add_2'', Button (txt_minus @ ''Stand'') ''order_remove_2''],
        [Button (txt_plus @ ''Mixer'') ''order_add_3'', Button (txt_minus @ ''Mixer'') ''order_remove_3''],
        [Button (txt_plus @ ''Amp'') ''order_add_4'', Button (txt_minus @ ''Amp'') ''order_remove_4''],
        [Button (txt_plus @ ''Lamp'') ''order_add_5'', Button (txt_minus @ ''Lamp'') ''order_remove_5''],
        [Button (txt_plus @ ''Tripod'') ''order_add_6'', Button (txt_minus @ ''Tripod'') ''order_remove_6''],
        [Button (txt_plus @ ''Camera'') ''order_add_7'', Button (txt_minus @ ''Camera'') ''order_remove_7''],
        [Button (txt_plus @ ''Lens'') ''order_add_8'', Button (txt_minus @ ''Lens'') ''order_remove_8''],
        [Button (txt_plus @ ''Screen'') ''order_add_9'', Button (txt_minus @ ''Screen'') ''order_remove_9''],
        [Button txt_right ''order_items_page_1''],
        [Button txt_back ''order_items_back'']]"
  by code_simp

lemma ex11_parse:
  "int_of_str ex_env11 (rsplit_last ''order_add_10'') = Some 10"
  "py_index (ITEMS ex_env11) 10 = Inr ''Laptop''"
  by code_simp+

lemma ex11_basket:
  "basket_of (fst (order_add ex_env11 (ex_world [] None Order) ex_user ''order_add_10''))
     (user_id ex_user) = [(''Laptop'', 1)]"
  by (simp add: order_add_def add_tap_state ex11_parse basket_of_def ensure_session_def
      put_session_def ex_world_def ex_user_def basket_increment_def dict_get_def)

theorem picker_rerendered_at_first_page_witness:
  "int_of_str ex_env11 (rsplit_last ''order_add_10'') = Some 10
   \<and> py_index (ITEMS ex_env11) 10 = Inr ''Laptop''
   \<and> items_keyboard ex_env11 ''order'' 0 = Inr
       [[Button (txt_plus @ ''Mic'') ''order_add_0'', Button (txt_minus @ ''Mic'') ''order_remove_0''],
        [Button (txt_plus @ ''Cable'') ''order_add_1'', Button (txt_minus @ ''Cable'') ''order_remove_1''],
        [Button (txt_plus @ ''Stand'') ''order_add_2'', Button (txt_minus @ ''Stand'') ''order_remove_2''],
        [Button (txt_plus @ ''Mixer'') ''order_add_3'', Button (txt_minus @ ''Mixer'') ''order_remove_3''],
        [Button (txt_plus @ ''Amp'') ''order_add_4'', Button (txt_minus @ ''Amp'') ''order_remove_4''],
        [Button (txt_plus @ ''Lamp'') ''order_add_5'', Button (txt_minus @ ''Lamp'') ''order_remove_5''],
        [Button (txt_plus @ ''Tripod'') ''order_add_6'', Button (txt_minus @ ''Tripod'') ''order_remove_6''],
        [Button (txt_plus @ ''Camera'') ''order_add_7'', Button (txt_minus @ ''Camera'') ''order_remove_7''],
        [Button (txt_plus @ ''Lens'') ''order_add_8'', Button (txt_minus @ ''Lens'') ''order_remove_8''],
        [Button (txt_plus @ ''Screen'') ''order_add_9'', Button (txt_minus @ ''Screen'') ''order_remove_9''],
        [Button txt_right ''order_items_page_1''],
        [Button txt_back ''order_items_back'']]
   \<and> snd (order_add ex_env11 (ex_world [] None Order) ex_user ''order_add_10'') =
       Inr [EditText (render_basket_text [(''Laptop'', 1)] txt_current_order)
              (Inline
       [[Button (txt_plus @ ''Mic'') ''order_add_0'', Button (txt_minus @ ''Mic'') ''order_remove_0''],
        [Button (txt_plus @ ''Cable'') ''order_add_1'', Button (txt_minus @ ''Cable'') ''order_remove_1''],
        [Button (txt_plus @ ''Stand'') ''order_add_2'', Button (txt_minus @ ''Stand'') ''order_remove_2''],
        [Button (txt_plus @ ''Mixer'') ''order_add_3'', Button (txt_minus @ ''Mixer'') ''order_remove_3''],
        [Button (txt_plus @ ''Amp'') ''order_add_4'', Button (txt_minus @ ''Amp'') ''order_remove_4''],
        [Button (txt_plus @ ''Lamp'') ''order_add_5'', Button (txt_minus @ ''Lamp'') ''order_remove_5''],
        [Button (txt_plus @ ''Tripod'') ''order_add_6'', Button (txt_minus @ ''Tripod'') ''order_remove_6''],
        [Button (txt_plus @ ''Camera'') ''order_add_7'', Button (txt_minus @ ''Camera'') ''order_remove_7''],
        [Button (txt_plus @ ''Lens'') ''order_add_8'', Button (txt_minus @ ''Lens'') ''order_remove_8''],
        [Button (txt_plus @ ''Screen'') ''order_add_9'', Button (txt_minus @ ''Screen'') ''order_remove_9''],
        [Button txt_right ''order_items_page_1''],
        [Button txt_back ''order_items_back'']]),
            AnswerCallback]"
proof -
  note t = picker_rerendered_at_first_page [of ex_env11 _ "ex_world [] None Order" ex_user
      "''order_add_10''" _ 10 "''Laptop''"]
  from t ex11_parse obtain a1 where
    a1: "snd (order_add ex_env11 (ex_world [] None Order) ex_user ''order_add_10'') = Inr a1"
    by blast
  from picker_rerendered_at_first_page [of ex_env11 _ "ex_world [] None Order" ex_user
      "''order_add_10''" a1] a1
  obtain kb where kb: "items_keyboard ex_env11 ''order'' 0 = Inr kb"
    "a1 = [EditText (render_basket_text
              (basket_of (fst (order_add ex_env11 (ex_world [] None Order) ex_user ''order_add_10''))
                 (user_id ex_user)) txt_current_order) (Inline kb),
           AnswerCallback]"
    by blast
  from kb(1) have "kb = [[Button (txt_plus @ ''Mic'') ''order_add_0'', Button (txt_minus @ ''Mic'') ''order_remove_0''],
        [Button (txt_plus @ ''Cable'') ''order_add_1'', Button (txt_minus @ ''Cable'') ''order_remove_1''],
        [Button (txt_plus @ ''Stand'') ''order_add_2'', Button (txt_minus @ ''Stand'') ''order_remove_2''],
        [Button (txt_plus @ ''Mixer'') ''order_add_3'', Button (txt_minus @ ''Mixer'') ''order_remove_3''],
        [Button (txt_plus @ ''Amp'') ''order_add_4'', Button (txt_minus @ ''Amp'') ''order_remove_4''],
        [Button (txt_plus @ ''Lamp'') ''order_add_5'', Button (txt_minus @ ''Lamp'') ''order_remove_5''],
        [Button (txt_plus @ ''Tripod'') ''order_add_6'', Button (txt_minus @ ''Tripod'') ''order_remove_6''],
        [Button (txt_plus @ ''Camera'') ''order_add_7'', Button (txt_minus @ ''Camera'') ''order_remove_7''],
        [Button (txt_plus @ ''Lens'') ''order_add_8'', Button (txt_minus @ ''Lens'') ''order_remove_8''],
        [Button (txt_plus @ ''Screen'') ''order_add_9'', Button (txt_minus @ ''Screen'') ''order_remove_9''],
        [Button txt_right ''order_items_page_1''],
        [Button txt_back ''order_items_back'']]"
    by (simp add: ex11_keyboard_order)
  with kb(2) a1 show ?thesis
    by (simp add: ex11_parse ex11_keyboard_order ex11_basket)
qed

text \<open>
  Claim C8. When \<open>save_stock\<close> has written a ledger, \<open>load_stock\<close> reads back the quantity
  of every item of the ledger that was saved, so of every catalog item when the ledger
  has them all; an item the saved ledger does not have gets the default of \<open>STOCK\<close>.
\<close>

theorem save_then_load:
  assumes "snd (save_stock ans w ledger) = Inr ()"
    and "distinct (map fst ledger)"
  shows "\<exists>loaded.
           load_stock e (fst (save_stock ans w ledger)) = Inr loaded
         \<and> (\<forall>(item, qty) \<in> set ledger. map_of loaded item = Some qty)
         \<and> (\<forall>item. item \<notin> fst ` set ledger \<longrightarrow> map_of loaded item = map_of (STOCK e) item)
         \<and> (set (ITEMS e) \<subseteq> fst ` set ledger \<longrightarrow>
              (\<forall>item \<in> set (ITEMS e). map_of loaded item = map_of ledger item))"
proof -
  from assms(1) have "save_stock ans w ledger = (fst (save_stock ans w ledger), Inr ())"
    by (rule split_result)
  then have "ans = WriteOk
      \<and> fst (save_stock ans w ledger) = w\<lparr>data_file := Doc (json_of_stock ledger)\<rparr>"
    by (rule save_stock_Inr [THEN iffD1])
  then have w': "fst (save_stock ans w ledger) = w\<lparr>data_file := Doc (json_of_stock ledger)\<rparr>"
    by (rule conjunct2)
  have "data_file (fst (save_stock ans w ledger)) = Doc (json_of_stock ledger)"
    by (simp add: w')
  from load_after_save [OF this, of e] obtain loaded where
    l: "load_stock e (fst (save_stock ans w ledger)) = Inr loaded"
    and m: "map_of loaded = map_of (STOCK e) ++ map_of (rev ledger)"
    by blast
  have m': "map_of loaded = map_of (STOCK e) ++ map_of ledger"
    using m map_of_rev_distinct [OF assms(2)] by simp
  have a: "map_of loaded item = Some qty" if "(item, qty) \<in> set ledger" for item qty
  proof -
    from that assms(2) have "map_of ledger item = Some qty" by simp
    then show ?thesis by (simp add: m')
  qed
  have b: "map_of loaded item = map_of (STOCK e) item" if "item \<notin> fst ` set ledger" for item
  proof -
    from that have "map_of ledger item = None" by (simp add: map_of_eq_None_iff)
    then show ?thesis by (simp add: m' map_add_def)
  qed
  have c: "map_of loaded item = map_of ledger item" if "item \<in> fst ` set ledger" for item
  proof -
    from that obtain qty where "(item, qty) \<in> set ledger" by auto
    with assms(2) have "map_of ledger item = Some qty" by simp
    then show ?thesis by (simp add: m')
  qed
  show ?thesis
    using l a b c by blast
qed

theorem save_then_load_witness:
  "snd (save_stock WriteOk (ex_world [] None Order) [(''Mic'', 1), (''Cable'', 5), (''Gaffer'', 3)]) = Inr ()
   \<and> distinct (map fst [(''Mic'', 1::int), (''Cable'', 5), (''Gaffer'', 3)])
   \<and> load_stock ex_env (fst (save_stock WriteOk (ex_world [] None Order)
                                 [(''Mic'', 1), (''Cable'', 5), (''Gaffer'', 3)]))
        = Inr [(''Mic'', 1), (''Cable'', 5), (''Gaffer'', 3)]
   \<and> (\<exists>loaded.
          load_stock ex_env (fst (save_stock WriteOk (ex_world [] None Order)
                                   [(''Mic'', 1), (''Cable'', 5), (''Gaffer'', 3)])) = Inr loaded
        \<and> list_all (\<lambda>(item, qty). map_of loaded item = Some qty)
             [(''Mic'', 1), (''Cable'', 5), (''Gaffer'', 3)]
        \<and> list_all (\<lambda>item. map_of loaded item
                              = map_of [(''Mic'', 1), (''Cable'', 5), (''Gaffer'', 3)] item)
             (ITEMS ex_env))"
proof -
  have h1: "snd (save_stock WriteOk (ex_world [] None Order) [(''Mic'', 1), (''Cable'', 5), (''Gaffer'', 3)]) = Inr ()"
    by (simp add: save_stock_def write_json_def)
  have h2: "distinct (map fst [(''Mic'', 1::int), (''Cable'', 5), (''Gaffer'', 3)])"
    by simp
  have h3: "set (ITEMS ex_env) \<subseteq> fst ` set [(''Mic'', 1::int), (''Cable'', 5), (''Gaffer'', 3)]"
    by (simp add: ex_env_def)
  have ev: "load_stock ex_env (fst (save_stock WriteOk (ex_world [] None Order)
                                 [(''Mic'', 1), (''Cable'', 5), (''Gaffer'', 3)]))
        = Inr [(''Mic'', 1), (''Cable'', 5), (''Gaffer'', 3)]"
    by (simp add: save_stock_def write_json_def load_stock_def json_of_stock_def ex_env_def)
  from save_then_load [OF h1 h2, of ex_env] h3 obtain loaded where
    "load_stock ex_env (fst (save_stock WriteOk (ex_world [] None Order)
                                   [(''Mic'', 1), (''Cable'', 5), (''Gaffer'', 3)])) = Inr loaded"
    "\<forall>(item, qty) \<in> set [(''Mic'', 1), (''Cable'', 5), (''Gaffer'', 3)]. map_of loaded item = Some qty"
    "\<forall>item \<in> set (ITEMS ex_env). map_of loaded item
         = map_of [(''Mic'', 1), (''Cable'', 5), (''Gaffer'', 3)] item"
    by blast
  then have "\<exists>loaded.
          load_stock ex_env (fst (save_stock WriteOk (ex_world [] None Order)
                                   [(''Mic'', 1), (''Cable'', 5), (''Gaffer'', 3)])) = Inr loaded
        \<and> list_all (\<lambda>(item, qty). map_of loaded item = Some qty)
             [(''Mic'', 1), (''Cable'', 5), (''Gaffer'', 3)]
        \<and> list_all (\<lambda>item. map_of loaded item
                              = map_of [(''Mic'', 1), (''Cable'', 5), (''Gaffer'', 3)] item)
             (ITEMS ex_env)"
    unfolding list_all_iff by blast
  with h1 h2 ev show ?thesis by blast
qed

text \<open>
  Claim C6, as amended. \<open>load_stock\<close> returns exactly the defaults of \<open>STOCK\<close> when the
  ledger file is missing, or when \<^verbatim>\<open>json.load\<close> rejects its text as malformed JSON, which
  is the \<^verbatim>\<open>JSONDecodeError\<close> of line 47 and the state \<open>BadJson\<close>. When the file holds a
  JSON object whose values are integers, it returns the defaults merged with that
  object: the persisted quantity where there is one, the default otherwise, names
  outside the catalog kept. When the file holds well-formed JSON that is not an object,
  the caller gets \<^verbatim>\<open>AttributeError\<close>: that content is not treated as empty. The statement
  says nothing of a file that is there and cannot be read, the state \<open>Unreadable\<close>.
\<close>

theorem load_stock_merges_defaults:
  "(data_file w = Missing \<or> data_file w = BadJson \<longrightarrow> load_stock e w = Inr (STOCK e))
   \<and> (data_file w = Doc (json_of_stock persisted) \<and> distinct (map fst persisted) \<longrightarrow>
        (\<exists>ledger.
            load_stock e w = Inr ledger
          \<and> (\<forall>name. map_of ledger name =
                (case map_of persisted name of
                   Some qty \<Rightarrow> Some qty
                 | None \<Rightarrow> map_of (STOCK e) name))
          \<and> fst ` set ledger = fst ` set (STOCK e) \<union> fst ` set persisted))
   \<and> (data_file w = Doc j \<and> (\<forall>kvs. j \<noteq> JObj kvs) \<longrightarrow> load_stock e w = Inl AttributeError)"
proof (intro conjI impI)
  assume "data_file w = Missing \<or> data_file w = BadJson"
  then show "load_stock e w = Inr (STOCK e)"
    by (auto simp: load_stock_def)
next
  assume a: "data_file w = Doc (json_of_stock persisted) \<and> distinct (map fst persisted)"
  then have f: "data_file w = Doc (json_of_stock persisted)" and d: "distinct (map fst persisted)"
    by simp_all
  from load_after_save [OF f, of e] obtain ledger where
    l: "load_stock e w = Inr ledger"
    and m: "map_of ledger = map_of (STOCK e) ++ map_of (rev persisted)"
    and k: "fst ` set ledger = fst ` set (STOCK e) \<union> fst ` set persisted"
    by blast
  have "map_of ledger name =
          (case map_of persisted name of Some qty \<Rightarrow> Some qty | None \<Rightarrow> map_of (STOCK e) name)"
    for name
    using m map_of_rev_distinct [OF d] by (simp add: map_add_def)
  with l k show "\<exists>ledger.
            load_stock e w = Inr ledger
          \<and> (\<forall>name. map_of ledger name =
                (case map_of persisted name of
                   Some qty \<Rightarrow> Some qty
                 | None \<Rightarrow> map_of (STOCK e) name))
          \<and> fst ` set ledger = fst ` set (STOCK e) \<union> fst ` set persisted"
    by blast
next
  assume "data_file w = Doc j \<and> (\<forall>kvs. j \<noteq> JObj kvs)"
  then show "load_stock e w = Inl AttributeError"
    by (cases j) (simp_all add: load_stock_def)
qed

theorem load_stock_merges_defaults_witness:
  "data_file (ex_world [] None Order) = Missing
   \<and> load_stock ex_env (ex_world [] None Order) = Inr [(''Mic'', 2), (''Cable'', 5)]
   \<and> data_file ((ex_world [] None Order)\<lparr>data_file := Doc (json_of_stock [(''Mic'', 7), (''Gaffer'', 3)])\<rparr>)
        = Doc (json_of_stock [(''Mic'', 7), (''Gaffer'', 3)])
   \<and> distinct (map fst [(''Mic'', 7::int), (''Gaffer'', 3)])
   \<and> load_stock ex_env ((ex_world [] None Order)\<lparr>data_file := Doc (json_of_stock [(''Mic'', 7), (''Gaffer'', 3)])\<rparr>)
        = Inr [(''Mic'', 7), (''Cable'', 5), (''Gaffer'', 3)]
   \<and> (\<exists>ledger.
          load_stock ex_env ((ex_world [] None Order)\<lparr>data_file := Doc (json_of_stock [(''Mic'', 7), (''Gaffer'', 3)])\<rparr>)
            = Inr ledger
        \<and> map_of ledger ''Mic'' = Some 7 \<and> map_of ledger ''Cable'' = Some 5
        \<and> map_of ledger ''Gaffer'' = Some 3)
   \<and> data_file ((ex_world [] None Order)\<lparr>data_file := Doc (JStr ''oops'')\<rparr>) = Doc (JStr ''oops'')
   \<and> load_stock ex_env ((ex_world [] None Order)\<lparr>data_file := Doc (JStr ''oops'')\<rparr>) = Inl AttributeError"
proof -
  let ?W = "ex_world [] None Order"
  let ?P = "(ex_world [] None Order)\<lparr>data_file := Doc (json_of_stock [(''Mic'', 7), (''Gaffer'', 3)])\<rparr>"
  let ?B = "(ex_world [] None Order)\<lparr>data_file := Doc (JStr ''oops'')\<rparr>"
  have h1: "data_file ?W = Missing"
    by (simp add: ex_world_def)
  have h2: "data_file ?P = Doc (json_of_stock [(''Mic'', 7), (''Gaffer'', 3)])"
    by simp
  have h3: "distinct (map fst [(''Mic'', 7::int), (''Gaffer'', 3)])"
    by simp
  have h4: "data_file ?B = Doc (JStr ''oops'')"
    by simp
  have h5: "\<forall>kvs. JStr ''oops'' \<noteq> JObj kvs"
    by simp
  have ev: "load_stock ex_env ?P = Inr [(''Mic'', 7), (''Cable'', 5), (''Gaffer'', 3)]"
    by (simp add: load_stock_def json_of_stock_def ex_env_def)
  have c1: "load_stock ex_env ?W = Inr [(''Mic'', 2), (''Cable'', 5)]"
    using load_stock_merges_defaults [of ?W ex_env] h1 by (simp add: ex_env_def)
  from load_stock_merges_defaults [of ?P ex_env "[(''Mic'', 7), (''Gaffer'', 3)]"] h2 h3
  obtain ledger where l: "load_stock ex_env ?P = Inr ledger"
    and m: "\<And>name. map_of ledger name =
                (case map_of [(''Mic'', 7), (''Gaffer'', 3)] name of
                   Some qty \<Rightarrow> Some qty
                 | None \<Rightarrow> map_of (STOCK ex_env) name)"
    by blast
  have c2: "\<exists>ledger. load_stock ex_env ?P = Inr ledger
        \<and> map_of ledger ''Mic'' = Some 7 \<and> map_of ledger ''Cable'' = Some 5
        \<and> map_of ledger ''Gaffer'' = Some 3"
    using l m [of "''Mic''"] m [of "''Cable''"] m [of "''Gaffer''"] by (simp add: ex_env_def)
  have c3: "load_stock ex_env ?B = Inl AttributeError"
    using load_stock_merges_defaults [of ?B ex_env _ "JStr ''oops''"] h4 h5 by blast
  show ?thesis
    using h1 c1 h2 h3 ev c2 h4 c3 by blast
qed

text \<open>
  The claim as it was stated fails in two places. On a ledger file that holds well-formed
  JSON of the wrong shape, an array or an object with a \<^verbatim>\<open>null\<close> quantity, \<open>load_stock\<close>
  raises at \<^verbatim>\<open>data.items()\<close> or at \<^verbatim>\<open>int(qty)\<close>: nothing in the source checks the shape of
  what \<^verbatim>\<open>json.load\<close> returns. On a ledger file that is there and cannot be read, because
  \<^verbatim>\<open>open\<close> raises \<^verbatim>\<open>OSError\<close> or because its bytes are not UTF-8 text, which raises a
  \<^verbatim>\<open>ValueError\<close> that is not a \<^verbatim>\<open>JSONDecodeError\<close>, \<open>load_stock\<close> raises too, where
  \<open>append_order_record\<close> goes on with an empty list in the same state of its file. In none
  of these states does \<open>load_stock\<close> fall back to the defaults.
\<close>

theorem load_stock_raises_counterexample:
  "load_stock ex_env ((ex_world [] None Order)\<lparr>data_file := Doc (JArr [])\<rparr>) = Inl AttributeError
   \<and> load_stock ex_env ((ex_world [] None Order)\<lparr>data_file := Doc (JObj [(''Mic'', JNull)])\<rparr>)
       = Inl TypeError
   \<and> load_stock ex_env ((ex_world [] None Order)\<lparr>data_file := Unreadable ValueError\<rparr>)
       = Inl ValueError
   \<and> load_stock ex_env ((ex_world [] None Order)\<lparr>data_file := Unreadable OSError\<rparr>)
       = Inl OSError
   \<and> load_stock ex_env ((ex_world [] None Order)\<lparr>data_file := Doc (JArr [])\<rparr>) \<noteq> Inr (STOCK ex_env)
   \<and> load_stock ex_env ((ex_world [] None Order)\<lparr>data_file := Doc (JObj [(''Mic'', JNull)])\<rparr>)
       \<noteq> Inr (STOCK ex_env)
   \<and> load_stock ex_env ((ex_world [] None Order)\<lparr>data_file := Unreadable ValueError\<rparr>)
       \<noteq> Inr (STOCK ex_env)
   \<and> load_stock ex_env ((ex_world [] None Order)\<lparr>data_file := Unreadable OSError\<rparr>)
       \<noteq> Inr (STOCK ex_env)
   \<and> log_records (Unreadable ValueError) = JArr []
   \<and> log_records (Unreadable OSError) = JArr []"
  by (simp add: load_stock_def log_records_def)

section \<open>Properties of the time stamp\<close>









section \<open>Properties of the date picker\<close>









section \<open>Properties of the dates of the sessions\<close>













section \<open>Properties of the transaction record\<close>












end
